theory Spec2Isabelle
  imports Complex_Main "HOL-Library.Word"
begin

section \<open>Strings\<close>

text \<open>
  A JavaScript string is a sequence of UTF-16 code units and \<open>.length\<close> counts
  code units, so a string is a list of 16-bit words.  \<open>ascii\<close> embeds the ASCII
  literals of the source.
\<close>

type_synonym jschar = "16 word"
type_synonym jsstring = "jschar list"

definition ascii :: "string \<Rightarrow> jsstring" where
  "ascii s = map (\<lambda>c. of_nat (of_char c)) s"

definition newline :: jsstring where
  "newline = ascii [CHR 0x0A]"

text \<open>\<open>Array.prototype.join\<close> on an array of strings.\<close>

fun join :: "jsstring \<Rightarrow> jsstring list \<Rightarrow> jsstring" where
  "join sep [] = []"
| "join sep [x] = x"
| "join sep (x # y # ys) = x @ sep @ join sep (y # ys)"

text \<open>
  \<open>String.prototype.substring(start, end)\<close> on integer arguments: both are clamped
  to \<open>[0, length]\<close> and swapped when \<open>start > end\<close>.
\<close>

definition substring :: "jsstring \<Rightarrow> int \<Rightarrow> int \<Rightarrow> jsstring" where
  "substring s start end =
     (let len = int (length s);
          finalStart = min (max start 0) len;
          finalEnd = min (max end 0) len;
          from = min finalStart finalEnd;
          to = max finalStart finalEnd
      in take (nat (to - from)) (drop (nat from) s))"

section \<open>Messages and settings\<close>

record message =
  is_user :: bool
  name :: jsstring
  is_system :: bool
  send_date :: int
  mes :: jsstring

text \<open>
  The settings as \<open>getSettings\<close> returns them.  The two sizes are the integers the settings
  form stores with \<open>parseInt\<close>; any integer, also zero or a negative one, can be there.
\<close>

record settings =
  enabled :: bool
  pageSize :: int
  presentSituationSize :: int
  apiUrl :: jsstring
  apiKey :: jsstring
  summarizeModel :: jsstring

definition defaultSettings :: settings where
  "defaultSettings =
     \<lparr> enabled = True,
       pageSize = 2000,
       presentSituationSize = 1000,
       apiUrl = ascii ''https://openrouter.ai/api/v1/chat/completions'',
       apiKey = [],
       summarizeModel = ascii ''openai/gpt-3.5-turbo'' \<rparr>"

text \<open>The template literal \<open>`${message.name}: ${message.mes}\n`\<close>.\<close>

definition messageText :: "message \<Rightarrow> jsstring" where
  "messageText message = name message @ ascii '': '' @ mes message @ newline"

section \<open>paginate\<close>

fun fullTextOf :: "message list \<Rightarrow> jsstring" where
  "fullTextOf [] = []"
| "fullTextOf (message # chat) = messageText message @ fullTextOf chat"

text \<open>
  The \<open>while\<close> loop of \<open>paginate\<close>.  With \<open>pageSize \<le> 0\<close> the index never
  passes the end of a non-empty text and the loop does not return.
\<close>

partial_function (option) paginateLoop ::
  "jsstring \<Rightarrow> int \<Rightarrow> int \<Rightarrow> jsstring list \<Rightarrow> jsstring list option" where
  "paginateLoop fullText psize startIndex pages =
     (if startIndex < int (length fullText)
      then paginateLoop fullText psize (startIndex + psize)
             (pages @ [substring fullText startIndex (startIndex + psize)])
      else Some pages)"

definition paginate :: "message list \<Rightarrow> int \<Rightarrow> jsstring list option" where
  "paginate chat psize =
     (let fullText = fullTextOf chat
      in if length fullText = 0 then Some [] else paginateLoop fullText psize 0 [])"

section \<open>Values, exceptions and the host\<close>

text \<open>
  The values a parsed response body is made of.  \<open>JSON.parse\<close> yields finite
  doubles and, on overflow, an infinity; it never yields NaN.  \<open>JUndefined\<close> is what
  reading a missing property gives.
\<close>

datatype jsnumber = Finite rat | Infinity bool

datatype jsval =
    JUndefined
  | JNull
  | JBool bool
  | JNumber jsnumber
  | JString jsstring
  | JArray "jsval list"
  | JObject "(jsstring \<times> jsval) list"

datatype exn = TypeError | SyntaxError | NetworkError

text \<open>ToBoolean, as applied by \<open>!\<close> and \<open>if\<close>.\<close>

fun truthy :: "jsval \<Rightarrow> bool" where
  "truthy JUndefined = False"
| "truthy JNull = False"
| "truthy (JBool b) = b"
| "truthy (JNumber n) = (n \<noteq> Finite 0)"
| "truthy (JString s) = (s \<noteq> [])"
| "truthy (JArray xs) = True"
| "truthy (JObject kvs) = True"

text \<open>
  Reading a property by name, for the names the source reads (\<open>choices\<close>,
  \<open>length\<close>, \<open>message\<close>, \<open>content\<close>): on \<open>undefined\<close> and \<open>null\<close> it
  throws a TypeError, strings and arrays have \<open>length\<close>, an object has its own entries
  (each key once, as \<open>JSON.parse\<close> builds it).
\<close>

fun getProp :: "jsval \<Rightarrow> jsstring \<Rightarrow> exn + jsval" where
  "getProp JUndefined key = Inl TypeError"
| "getProp JNull key = Inl TypeError"
| "getProp (JBool b) key = Inr JUndefined"
| "getProp (JNumber n) key = Inr JUndefined"
| "getProp (JString s) key =
     (if key = ascii ''length'' then Inr (JNumber (Finite (of_nat (length s)))) else Inr JUndefined)"
| "getProp (JArray xs) key =
     (if key = ascii ''length'' then Inr (JNumber (Finite (of_nat (length xs)))) else Inr JUndefined)"
| "getProp (JObject kvs) key =
     (case map_of kvs key of None \<Rightarrow> Inr JUndefined | Some v \<Rightarrow> Inr v)"

text \<open>The element access \<open>v[0]\<close>.\<close>

fun getIndex0 :: "jsval \<Rightarrow> exn + jsval" where
  "getIndex0 JUndefined = Inl TypeError"
| "getIndex0 JNull = Inl TypeError"
| "getIndex0 (JBool b) = Inr JUndefined"
| "getIndex0 (JNumber n) = Inr JUndefined"
| "getIndex0 (JString s) = (case s of [] \<Rightarrow> Inr JUndefined | c # _ \<Rightarrow> Inr (JString [c]))"
| "getIndex0 (JArray xs) = (case xs of [] \<Rightarrow> Inr JUndefined | x # _ \<Rightarrow> Inr x)"
| "getIndex0 (JObject kvs) =
     (case map_of kvs (ascii ''0'') of None \<Rightarrow> Inr JUndefined | Some v \<Rightarrow> Inr v)"

text \<open>
  \<open>String.prototype.trim\<close> strips the WhiteSpace and LineTerminator code units from
  both ends.
\<close>

definition isWhiteSpace :: "jschar \<Rightarrow> bool" where
  "isWhiteSpace c \<longleftrightarrow>
     c = 0x0009 \<or> c = 0x000A \<or> c = 0x000B \<or> c = 0x000C \<or> c = 0x000D \<or> c = 0x0020
     \<or> c = 0x00A0 \<or> c = 0x1680 \<or> (0x2000 \<le> c \<and> c \<le> 0x200A) \<or> c = 0x2028 \<or> c = 0x2029
     \<or> c = 0x202F \<or> c = 0x205F \<or> c = 0x3000 \<or> c = 0xFEFF"

definition trim :: "jsstring \<Rightarrow> jsstring" where
  "trim s = rev (dropWhile isWhiteSpace (rev (dropWhile isWhiteSpace s)))"

text \<open>
  The call \<open>v.trim()\<close>: only a string has a callable \<open>trim\<close>; on every other value
  the property read or the call throws a TypeError.
\<close>

fun callTrim :: "jsval \<Rightarrow> exn + jsstring" where
  "callTrim (JString s) = Inr (trim s)"
| "callTrim v = Inl TypeError"

text \<open>Decimal rendering of a status code inside a template literal.\<close>

fun decimal :: "nat \<Rightarrow> jsstring" where
  "decimal n =
     (if n < 10 then [of_nat (48 + n)] else decimal (n div 10) @ [of_nat (48 + n mod 10)])"

declare decimal.simps [simp del]

text \<open>
  A \<open>fetch\<close> call: the request as the source builds it (the body before
  \<open>JSON.stringify\<close>), and what the transport answers.  \<open>response.text()\<close> and
  \<open>response.json()\<close> may each reject; the source reads only one of the two from a
  response, so the two readings are given side by side.
\<close>

record request =
  req_url :: jsstring
  req_method :: jsstring
  req_headers :: "(jsstring \<times> jsstring) list"
  req_body :: jsval

record response =
  resp_ok :: bool
  resp_status :: nat
  resp_text :: "exn + jsstring"
  resp_json :: "exn + jsval"

text \<open>
  The remote endpoint: the outcome of the \<open>k\<close>-th call of the process for a given
  request; \<open>Inl\<close> is a rejected \<open>fetch\<close>.
\<close>

type_synonym server = "nat \<Rightarrow> request \<Rightarrow> exn + response"

datatype logarg = LogString jsstring | LogValue jsval | LogExn exn

datatype loglevel = LevelLog | LevelError

text \<open>
  \<open>extensionSettings[MODULE_NAME]\<close>: absent, or an object holding some of the keys.
\<close>

record stored_settings =
  st_enabled :: "bool option"
  st_pageSize :: "int option"
  st_presentSituationSize :: "int option"
  st_apiUrl :: "jsstring option"
  st_apiKey :: "jsstring option"
  st_summarizeModel :: "jsstring option"

text \<open>
  The state the module reads and writes: the host's settings store, the module-level
  \<open>dynamicMemory\<close>, the \<open>toastr.error\<close> notifications shown, the console, and the
  \<open>fetch\<close> calls made so far.  The chat array is passed and returned beside it.
\<close>

record world =
  extensionSettings :: "stored_settings option"
  dynamicMemory :: "jsstring list"
  toasts :: "jsstring list"
  console :: "(loglevel \<times> logarg list) list"
  requests :: "request list"

definition toastr_error :: "jsstring \<Rightarrow> world \<Rightarrow> world" where
  "toastr_error msg w = w\<lparr>toasts := toasts w @ [msg]\<rparr>"

definition console_error :: "logarg list \<Rightarrow> world \<Rightarrow> world" where
  "console_error args w = w\<lparr>console := console w @ [(LevelError, args)]\<rparr>"

definition console_log :: "logarg list \<Rightarrow> world \<Rightarrow> world" where
  "console_log args w = w\<lparr>console := console w @ [(LevelLog, args)]\<rparr>"

definition fetch :: "server \<Rightarrow> request \<Rightarrow> world \<Rightarrow> (exn + response) \<times> world" where
  "fetch srv req w = (srv (length (requests w)) req, w\<lparr>requests := requests w @ [req]\<rparr>)"

text \<open>\<open>try { body } catch (error) { handler }\<close> over the state.\<close>

definition tryCatch ::
  "(world \<Rightarrow> (exn + 'a) \<times> world) \<Rightarrow> (exn \<Rightarrow> world \<Rightarrow> (exn + 'a) \<times> world)
     \<Rightarrow> world \<Rightarrow> (exn + 'a) \<times> world" where
  "tryCatch body handler w = (case body w of (Inl error, w') \<Rightarrow> handler error w' | (Inr v, w') \<Rightarrow> (Inr v, w'))"

section \<open>getSettings\<close>

definition getSettings :: "world \<Rightarrow> settings \<times> world" where
  "getSettings w =
     (let stored = (case extensionSettings w of
                      None \<Rightarrow> \<lparr> st_enabled = Some (enabled defaultSettings),
                                st_pageSize = Some (pageSize defaultSettings),
                                st_presentSituationSize = Some (presentSituationSize defaultSettings),
                                st_apiUrl = Some (apiUrl defaultSettings),
                                st_apiKey = Some (apiKey defaultSettings),
                                st_summarizeModel = Some (summarizeModel defaultSettings) \<rparr>
                    | Some s \<Rightarrow> s);
          filled = \<lparr> enabled = (case st_enabled stored of None \<Rightarrow> enabled defaultSettings | Some v \<Rightarrow> v),
                     pageSize = (case st_pageSize stored of None \<Rightarrow> pageSize defaultSettings | Some v \<Rightarrow> v),
                     presentSituationSize = (case st_presentSituationSize stored of
                                               None \<Rightarrow> presentSituationSize defaultSettings | Some v \<Rightarrow> v),
                     apiUrl = (case st_apiUrl stored of None \<Rightarrow> apiUrl defaultSettings | Some v \<Rightarrow> v),
                     apiKey = (case st_apiKey stored of None \<Rightarrow> apiKey defaultSettings | Some v \<Rightarrow> v),
                     summarizeModel = (case st_summarizeModel stored of
                                         None \<Rightarrow> summarizeModel defaultSettings | Some v \<Rightarrow> v) \<rparr>
      in (filled,
          w\<lparr>extensionSettings :=
               Some \<lparr> st_enabled = Some (enabled filled),
                      st_pageSize = Some (pageSize filled),
                      st_presentSituationSize = Some (presentSituationSize filled),
                      st_apiUrl = Some (apiUrl filled),
                      st_apiKey = Some (apiKey filled),
                      st_summarizeModel = Some (summarizeModel filled) \<rparr>\<rparr>))"

section \<open>summarizePage\<close>

definition promptOf :: "jsstring \<Rightarrow> jsstring \<Rightarrow> jsstring" where
  "promptOf presentSituation page =
     ascii ''Present Situation:'' @ newline @ presentSituation @ newline @ newline
     @ ascii ''Memory:'' @ newline @ page @ newline @ newline
     @ ascii ''Based on the present situation, what details from the memory are relevant? Be brief. If nothing is relevant, respond with a blank message.''"

definition requestOf :: "settings \<Rightarrow> jsstring \<Rightarrow> request" where
  "requestOf st prompt =
     \<lparr> req_url = apiUrl st,
       req_method = ascii ''POST'',
       req_headers =
         [(ascii ''Content-Type'', ascii ''application/json''),
          (ascii ''Authorization'', ascii ''Bearer '' @ apiKey st),
          (ascii ''HTTP-Referer'', ascii ''https://sillytavern.app''),
          (ascii ''X-Title'', ascii ''SillyTavern'')],
       req_body =
         JObject [(ascii ''model'', JString (summarizeModel st)),
                  (ascii ''messages'',
                   JArray [JObject [(ascii ''role'', JString (ascii ''user'')),
                                    (ascii ''content'', JString prompt)]])] \<rparr>"

text \<open>
  The part of the \<open>try\<close> block after \<open>response.json()\<close> has resolved: the check of
  \<open>data.choices\<close> and the read of \<open>data.choices[0].message.content.trim()\<close>.
\<close>

definition readChoices :: "jsval \<Rightarrow> world \<Rightarrow> (exn + jsstring option) \<times> world" where
  "readChoices data w =
     (case getProp data (ascii ''choices'') of
        Inl e \<Rightarrow> (Inl e, w)
      | Inr choices \<Rightarrow>
          if \<not> truthy choices \<or> getProp choices (ascii ''length'') = Inr (JNumber (Finite 0)) then
            (Inr None,
             console_error [LogString (ascii ''Dynamic Memory: Invalid API response''), LogValue data]
               (toastr_error (ascii ''Dynamic Memory: Invalid API response. See console for details.'') w))
          else
            (case getIndex0 choices of
               Inl e \<Rightarrow> (Inl e, w)
             | Inr choice \<Rightarrow>
                 (case getProp choice (ascii ''message'') of
                    Inl e \<Rightarrow> (Inl e, w)
                  | Inr message \<Rightarrow>
                      (case getProp message (ascii ''content'') of
                         Inl e \<Rightarrow> (Inl e, w)
                       | Inr content \<Rightarrow>
                           (case callTrim content of
                              Inl e \<Rightarrow> (Inl e, w)
                            | Inr trimmed \<Rightarrow> (Inr (Some trimmed), w))))))"

text \<open>The body of the \<open>try\<close> block.\<close>

definition tryBlock ::
  "server \<Rightarrow> settings \<Rightarrow> jsstring \<Rightarrow> world \<Rightarrow> (exn + jsstring option) \<times> world" where
  "tryBlock srv st prompt w =
     (case fetch srv (requestOf st prompt) w of
        (Inl e, w1) \<Rightarrow> (Inl e, w1)
      | (Inr response, w1) \<Rightarrow>
          if \<not> resp_ok response then
            (case resp_text response of
               Inl e \<Rightarrow> (Inl e, w1)
             | Inr errorText \<Rightarrow>
                 (Inr None,
                  console_error [LogString (ascii ''Error details:''), LogString errorText]
                    (console_error
                       [LogString (ascii ''Dynamic Memory: API request failed with status ''
                                   @ decimal (resp_status response))]
                       (toastr_error
                          (ascii ''Dynamic Memory: API request failed with status ''
                           @ decimal (resp_status response) @ ascii ''. See console for details.'')
                          w1))))
          else
            (case resp_json response of
               Inl e \<Rightarrow> (Inl e, w1)
             | Inr data \<Rightarrow> readChoices data w1))"

text \<open>The \<open>catch\<close> block.\<close>

definition catchBlock :: "exn \<Rightarrow> world \<Rightarrow> (exn + jsstring option) \<times> world" where
  "catchBlock error w =
     (Inr None,
      console_error [LogString (ascii ''Dynamic Memory: Error during API call''), LogExn error]
        (toastr_error (ascii ''Dynamic Memory: Error during API call. See console for details.'') w))"

text \<open>
  \<open>summarizePage\<close> returns a string or \<open>null\<close> (\<open>Some\<close>, \<open>None\<close>), or throws
  (\<open>Inl\<close>), and updates the state.
\<close>

definition summarizePage ::
  "server \<Rightarrow> jsstring \<Rightarrow> jsstring \<Rightarrow> settings \<Rightarrow> world \<Rightarrow> (exn + jsstring option) \<times> world" where
  "summarizePage srv page presentSituation st w =
     (if apiKey st = [] then
        (Inr None,
         console_error [LogString (ascii ''Dynamic Memory: API key is not set.'')]
           (toastr_error
              (ascii ''Dynamic Memory: API key is not set. Please set it in the extension settings.'') w))
      else
        let prompt = promptOf presentSituation page
        in tryCatch (tryBlock srv st prompt) catchBlock w)"

section \<open>dynamicMemoryInterceptor\<close>

text \<open>
  Step 1, the forward loop looking for the first message from the user or the
  character.  The loop either breaks at an index, returns from the interceptor at the last
  message, or (on an empty array) ends without either.
\<close>

datatype scan = Found nat | AllSystem | NoBreak

definition fromUserOrCharacter :: "message \<Rightarrow> bool" where
  "fromUserOrCharacter m \<longleftrightarrow> is_user m \<or> (\<not> is_system m \<and> name m \<noteq> ascii ''System'')"

function findChatStart :: "message list \<Rightarrow> nat \<Rightarrow> scan" where
  "findChatStart chat i =
     (if i < length chat then
        (if fromUserOrCharacter (chat ! i)
         then Found i
         else if i = length chat - 1 then AllSystem
         else findChatStart chat (i + 1))
      else NoBreak)"
  by pat_completeness auto
termination
  by (relation "measure (\<lambda>(chat, i). length chat - i)") auto

declare findChatStart.simps [simp del]

definition chatStartIndex :: "message list \<Rightarrow> nat" where
  "chatStartIndex chat = (case findChatStart chat 0 of Found i \<Rightarrow> i | _ \<Rightarrow> 0)"

definition initialSystemMessages :: "message list \<Rightarrow> message list" where
  "initialSystemMessages chat = take (chatStartIndex chat) chat"

definition workableChat :: "message list \<Rightarrow> message list" where
  "workableChat chat = drop (chatStartIndex chat) chat"

text \<open>
  Step 2, the backward loop over the workable chat; it returns the final \<open>splitIndex\<close>.
\<close>

function splitScan :: "message list \<Rightarrow> int \<Rightarrow> int \<Rightarrow> nat \<Rightarrow> nat \<Rightarrow> nat" where
  "splitScan workable limit i presentSituationCharCount splitIdx =
     (if 0 \<le> i then
        (let message = workable ! nat i;
             text = messageText message
         in if int (presentSituationCharCount + length text) > limit then splitIdx
            else splitScan workable limit (i - 1) (presentSituationCharCount + length text) (nat i))
      else splitIdx)"
  by pat_completeness auto
termination
  by (relation "measure (\<lambda>(workable, limit, i, c, s). nat (i + 1))") auto

declare splitScan.simps [simp del]

definition splitIndex :: "message list \<Rightarrow> int \<Rightarrow> nat" where
  "splitIndex workable limit =
     splitScan workable limit (int (length workable) - 1) 0 (length workable)"

definition historyToSummarize :: "message list \<Rightarrow> int \<Rightarrow> message list" where
  "historyToSummarize workable limit = take (splitIndex workable limit) workable"

definition presentChat :: "message list \<Rightarrow> int \<Rightarrow> message list" where
  "presentChat workable limit = drop (splitIndex workable limit) workable"

definition presentSituationText :: "message list \<Rightarrow> jsstring" where
  "presentSituationText present = join newline (map (\<lambda>m. name m @ ascii '': '' @ mes m) present)"

text \<open>The history and the present of a chat under given settings.\<close>

abbreviation historyOf :: "settings \<Rightarrow> message list \<Rightarrow> message list" where
  "historyOf st chat \<equiv> historyToSummarize (workableChat chat) (presentSituationSize st)"

abbreviation presentOf :: "settings \<Rightarrow> message list \<Rightarrow> message list" where
  "presentOf st chat \<equiv> presentChat (workableChat chat) (presentSituationSize st)"

text \<open>
  Step 3, the loop over the pages: a page's summary is kept when it is truthy, that is a
  non-empty string.  An exception thrown by \<open>summarizePage\<close> would leave the loop.
\<close>

fun summarizeLoop ::
  "server \<Rightarrow> jsstring list \<Rightarrow> jsstring \<Rightarrow> settings \<Rightarrow> jsstring list \<Rightarrow> world
     \<Rightarrow> (exn + jsstring list) \<times> world" where
  "summarizeLoop srv [] presentText st summarizedPages w = (Inr summarizedPages, w)"
| "summarizeLoop srv (page # pages) presentText st summarizedPages w =
     (case summarizePage srv page presentText st w of
        (Inl e, w') \<Rightarrow> (Inl e, w')
      | (Inr summary, w') \<Rightarrow>
          summarizeLoop srv pages presentText st
            (case summary of
               None \<Rightarrow> summarizedPages
             | Some s \<Rightarrow> if s \<noteq> [] then summarizedPages @ [s] else summarizedPages)
            w')"

text \<open>Step 4, the synthetic message; \<open>now\<close> is the reading of \<open>Date.now()\<close>.\<close>

definition memoryMessage :: "int \<Rightarrow> jsstring list \<Rightarrow> message" where
  "memoryMessage now memory =
     \<lparr> is_user = False,
       name = ascii ''System'',
       is_system = True,
       send_date = now,
       mes = ascii ''[The following is a summarized history of past events, used for context]''
             @ newline @ join newline memory \<rparr>"

text \<open>
  The interceptor: its result is \<open>None\<close> when it does not return, and otherwise whether
  it threw, the chat array as it leaves it, and the state.
\<close>

definition dynamicMemoryInterceptor ::
  "server \<Rightarrow> int \<Rightarrow> message list \<Rightarrow> world \<Rightarrow> ((exn + unit) \<times> message list \<times> world) option" where
  "dynamicMemoryInterceptor srv now chat w =
     (let (st, w1) = getSettings w in
      if \<not> enabled st \<or> length chat < 3 then Some (Inr (), chat, w1)
      else
        let w2 = console_log [LogString (ascii ''Dynamic Memory Interceptor triggered'')] w1 in
        if findChatStart chat 0 = AllSystem then Some (Inr (), chat, w2)
        else
          let history = historyToSummarize (workableChat chat) (presentSituationSize st);
              present = presentChat (workableChat chat) (presentSituationSize st)
          in
          if length history = 0 then
            Some (Inr (), chat,
                  console_log [LogString (ascii ''Dynamic Memory: No history to summarize.'')] w2)
          else
            (case paginate history (pageSize st) of
               None \<Rightarrow> None
             | Some pages \<Rightarrow>
                 (case summarizeLoop srv pages (presentSituationText present) st [] w2 of
                    (Inl e, w3) \<Rightarrow> Some (Inl e, chat, w3)
                  | (Inr summarizedPages, w3) \<Rightarrow>
                      let w4 = w3\<lparr>dynamicMemory := summarizedPages\<rparr> in
                      if length (dynamicMemory w4) > 0 then
                        Some (Inr (),
                              initialSystemMessages chat
                                @ [memoryMessage now (dynamicMemory w4)]
                                @ present,
                              console_log
                                [LogString (ascii ''Dynamic Memory: Chat context reconstructed with summary.'')]
                                w4)
                      else Some (Inr (), chat, w4))))"

section \<open>The digests of a run\<close>

text \<open>
  What the successive \<open>summarizePage\<close> calls of the page loop return, in page order,
  and the non-empty digests among these results.
\<close>

fun pageSummaries ::
  "server \<Rightarrow> jsstring list \<Rightarrow> jsstring \<Rightarrow> settings \<Rightarrow> world \<Rightarrow> (exn + jsstring option) list" where
  "pageSummaries srv [] presentText st w = []"
| "pageSummaries srv (page # pages) presentText st w =
     fst (summarizePage srv page presentText st w)
       # pageSummaries srv pages presentText st (snd (summarizePage srv page presentText st w))"

fun nonEmptyDigests :: "(exn + jsstring option) list \<Rightarrow> jsstring list" where
  "nonEmptyDigests [] = []"
| "nonEmptyDigests (Inr (Some s) # rs) = (if s \<noteq> [] then s # nonEmptyDigests rs else nonEmptyDigests rs)"
| "nonEmptyDigests (Inr None # rs) = nonEmptyDigests rs"
| "nonEmptyDigests (Inl e # rs) = nonEmptyDigests rs"

text \<open>The chat array and the state that a run leaves when it returns.\<close>

definition chatAfter :: "((exn + unit) \<times> message list \<times> world) option \<Rightarrow> message list option" where
  "chatAfter run = map_option (\<lambda>(r, chat, w). chat) run"

definition worldAfter :: "((exn + unit) \<times> message list \<times> world) option \<Rightarrow> world option" where
  "worldAfter run = map_option (\<lambda>(r, chat, w). w) run"

section \<open>Example inputs\<close>

definition exRules :: message where
  "exRules = \<lparr> is_user = False, name = ascii ''System'', is_system = True, send_date = 0,
               mes = ascii ''rules'' \<rparr>"

definition exHi :: message where
  "exHi = \<lparr> is_user = True, name = ascii ''User'', is_system = False, send_date = 1,
            mes = ascii ''hi'' \<rparr>"

definition exHello :: message where
  "exHello = \<lparr> is_user = False, name = ascii ''Bot'', is_system = False, send_date = 2,
               mes = ascii ''hello'' \<rparr>"

definition exGoOn :: message where
  "exGoOn = \<lparr> is_user = True, name = ascii ''User'', is_system = False, send_date = 3,
              mes = ascii ''go on'' \<rparr>"

definition exChat :: "message list" where
  "exChat = [exRules, exHi, exHello, exGoOn]"

text \<open>
  A state whose stored settings hold the given page size, present-situation size and key,
  and whose \<open>dynamicMemory\<close> still holds the digest of an earlier run.
\<close>

definition exWorld :: "int \<Rightarrow> int \<Rightarrow> jsstring \<Rightarrow> world" where
  "exWorld psize limit key =
     \<lparr> extensionSettings =
         Some \<lparr> st_enabled = Some True, st_pageSize = Some psize,
                st_presentSituationSize = Some limit, st_apiUrl = None,
                st_apiKey = Some key, st_summarizeModel = None \<rparr>,
       dynamicMemory = [ascii ''old''],
       toasts = [],
       console = [],
       requests = [] \<rparr>"

text \<open>The same state with the extension switched off.\<close>

definition exDisabledWorld :: "int \<Rightarrow> int \<Rightarrow> jsstring \<Rightarrow> world" where
  "exDisabledWorld psize limit key =
     (exWorld psize limit key)
       \<lparr>extensionSettings :=
          Some \<lparr> st_enabled = Some False, st_pageSize = Some psize,
                 st_presentSituationSize = Some limit, st_apiUrl = None,
                 st_apiKey = Some key, st_summarizeModel = None \<rparr>\<rparr>"

definition exResponse :: "jsstring \<Rightarrow> response" where
  "exResponse content =
     \<lparr> resp_ok = True, resp_status = 200, resp_text = Inr [],
       resp_json =
         Inr (JObject [(ascii ''choices'',
                        JArray [JObject [(ascii ''message'',
                                          JObject [(ascii ''content'', JString content)])]])]) \<rparr>"

text \<open>
  An endpoint that answers the first call with a digest and every later call with a blank
  message, one that always answers with blanks, and one that always rejects.
\<close>

definition exServer :: server where
  "exServer k req = (if k = 0 then Inr (exResponse (ascii ''likes tea'')) else Inr (exResponse (ascii '' '')))"

definition exBlankServer :: server where
  "exBlankServer k req = Inr (exResponse (ascii ''  ''))"

definition exDownServer :: server where
  "exDownServer k req = Inl NetworkError"

text \<open>
  Endpoints that answer with status 500, with a body that is not JSON, and with an empty
  choice list.
\<close>

definition exErrorServer :: server where
  "exErrorServer k req =
     Inr \<lparr> resp_ok = False, resp_status = 500, resp_text = Inr (ascii ''overloaded''),
           resp_json = Inl SyntaxError \<rparr>"

definition exGarbageServer :: server where
  "exGarbageServer k req =
     Inr \<lparr> resp_ok = True, resp_status = 200, resp_text = Inr (ascii ''<html>''),
           resp_json = Inl SyntaxError \<rparr>"

definition exNoChoiceServer :: server where
  "exNoChoiceServer k req =
     Inr \<lparr> resp_ok = True, resp_status = 200, resp_text = Inr (ascii ''{}''),
           resp_json = Inr (JObject [(ascii ''choices'', JArray [])]) \<rparr>"

section \<open>Properties of paginate\<close>

lemma substring_window:
  assumes "0 \<le> s" and "0 < p"
  shows "substring t s (s + p) = take (nat p) (drop (nat s) t)"
proof -
  have "take (nat (min (s + p) (int (length t)) - min s (int (length t)))) (drop (nat (min s (int (length t)))) t)
        = take (nat p) (drop (nat s) t)"
  proof (cases "s + p \<le> int (length t)")
    case True
    with assms show ?thesis by (simp add: min_def)
  next
    case False
    show ?thesis
    proof (cases "s \<le> int (length t)")
      case True
      with False assms have "length (drop (nat s) t) \<le> nat (int (length t) - s)"
        and "length (drop (nat s) t) \<le> nat p" by auto
      with True False show ?thesis by (simp add: min_def)
    next
      case False
      with assms show ?thesis by (simp add: min_def)
    qed
  qed
  with assms show ?thesis
    by (simp add: substring_def Let_def max_def min_def)
qed

lemma paginateLoop_total:
  assumes "0 < p" and "0 \<le> s" and "\<forall>pg\<in>set pages. int (length pg) \<le> p"
  shows "\<exists>r. paginateLoop t p s pages = Some r
           \<and> concat r = concat pages @ drop (nat s) t
           \<and> (\<forall>pg\<in>set r. int (length pg) \<le> p)"
  using assms
proof (induction "nat (int (length t) - s)" arbitrary: s pages rule: less_induct)
  case less
  show ?case
  proof (cases "s < int (length t)")
    case False
    then have "paginateLoop t p s pages = Some pages"
      by (subst paginateLoop.simps) simp
    moreover from False less.prems have "drop (nat s) t = []" by simp
    ultimately show ?thesis using less.prems by simp
  next
    case True
    let ?pg = "substring t s (s + p)"
    have pg: "?pg = take (nat p) (drop (nat s) t)"
      using less.prems by (simp add: substring_window)
    have step: "paginateLoop t p s pages = paginateLoop t p (s + p) (pages @ [?pg])"
      using True by (subst paginateLoop.simps) simp
    have "nat (int (length t) - (s + p)) < nat (int (length t) - s)"
      using True less.prems by simp
    moreover have "0 \<le> s + p" using less.prems by simp
    moreover have "\<forall>q\<in>set (pages @ [?pg]). int (length q) \<le> p"
      using less.prems by (auto simp: pg)
    ultimately obtain r where r: "paginateLoop t p (s + p) (pages @ [?pg]) = Some r"
      "concat r = concat (pages @ [?pg]) @ drop (nat (s + p)) t"
      "\<forall>q\<in>set r. int (length q) \<le> p"
      using less.hyps [of "s + p" "pages @ [?pg]"] less.prems(1) by blast
    have "nat (s + p) = nat p + nat s" using less.prems by simp
    then have "take (nat p) (drop (nat s) t) @ drop (nat (s + p)) t = drop (nat s) t"
      by (simp add: drop_drop [symmetric] del: drop_drop)
    with r show ?thesis by (simp add: step pg)
  qed
qed

lemma paginate_returns:
  assumes "0 < psize"
  shows "\<exists>pages. paginate chat psize = Some pages"
proof (cases "fullTextOf chat = []")
  case True
  then show ?thesis by (simp add: paginate_def)
next
  case False
  from paginateLoop_total [of psize 0 "[]" "fullTextOf chat"] assms
  obtain r where "paginateLoop (fullTextOf chat) psize 0 [] = Some r" by auto
  with False show ?thesis by (simp add: paginate_def)
qed

text \<open>
  C3: for every message list and every \<open>pageSize > 0\<close>, \<open>paginate\<close> returns (it is
  total), every page it produces has length at most \<open>pageSize\<close>, the pages concatenated
  in order are exactly the rendered text, and an empty rendered text yields no page.
\<close>

theorem paginate_total_bounded_lossless:
  assumes "0 < psize"
  shows "\<exists>pages. paginate chat psize = Some pages
           \<and> (\<forall>page\<in>set pages. int (length page) \<le> psize)
           \<and> concat pages = fullTextOf chat
           \<and> (fullTextOf chat = [] \<longrightarrow> pages = [])"
proof (cases "fullTextOf chat = []")
  case True
  then show ?thesis by (simp add: paginate_def)
next
  case False
  from paginateLoop_total [of psize 0 "[]" "fullTextOf chat"] assms
  obtain r where "paginateLoop (fullTextOf chat) psize 0 [] = Some r"
    "concat r = fullTextOf chat" "\<forall>pg\<in>set r. int (length pg) \<le> psize"
    by auto
  with False show ?thesis by (simp add: paginate_def)
qed

theorem paginate_total_bounded_lossless_witness:
  "0 < (5::int)
   \<and> (\<exists>pages. paginate [exHi] 5 = Some pages
         \<and> (\<forall>page\<in>set pages. int (length page) \<le> 5)
         \<and> concat pages = fullTextOf [exHi]
         \<and> (fullTextOf [exHi] = [] \<longrightarrow> pages = []))"
  using paginate_total_bounded_lossless [of 5 "[exHi]"] by simp

text \<open>The spec's example: 5000 characters at page size 2000 give pages of 2000, 2000 and 1000.\<close>

lemma paginateLoop_example:
  assumes "length t = 5000"
  shows "\<exists>p1 p2 p3. paginateLoop t 2000 0 [] = Some [p1, p2, p3]
           \<and> length p1 = 2000 \<and> length p2 = 2000 \<and> length p3 = 1000"
proof -
  have "paginateLoop t 2000 0 [] = Some [substring t 0 2000, substring t 2000 4000, substring t 4000 6000]"
    using assms by (simp add: paginateLoop.simps)
  moreover have "length (substring t 0 2000) = 2000" "length (substring t 2000 4000) = 2000"
    "length (substring t 4000 6000) = 1000"
    using assms by (simp_all add: substring_def)
  ultimately show ?thesis by blast
qed

text \<open>With \<open>pageSize \<le> 0\<close> the loop of \<open>paginate\<close> does not return on a non-empty list.\<close>

lemma paginateLoop_Some_progress:
  assumes "paginateLoop t p s pages = Some r"
  shows "0 < p \<or> int (length t) \<le> s"
proof -
  have "p \<le> 0 \<longrightarrow> int (length t) \<le> s"
  proof (rule paginateLoop.raw_induct
           [where P = "\<lambda>t p s pages r. p \<le> 0 \<longrightarrow> int (length t) \<le> s", OF _ assms])
    fix loop :: "jsstring \<Rightarrow> int \<Rightarrow> int \<Rightarrow> jsstring list \<Rightarrow> jsstring list option"
      and t p s pages r
    assume IH: "\<And>t p s pages r. loop t p s pages = Some r \<Longrightarrow> p \<le> 0 \<longrightarrow> int (length t) \<le> s"
      and step: "(if s < int (length t)
                  then loop t p (s + p) (pages @ [substring t s (s + p)])
                  else Some pages) = Some r"
    show "p \<le> 0 \<longrightarrow> int (length t) \<le> s"
    proof (intro impI, rule ccontr)
      assume p: "p \<le> 0" and "\<not> int (length t) \<le> s"
      then have lt: "s < int (length t)" by simp
      with step have "loop t p (s + p) (pages @ [substring t s (s + p)]) = Some r" by simp
      from IH [OF this] p have "int (length t) \<le> s + p" by simp
      with p lt show False by simp
    qed
  qed
  then show ?thesis by auto
qed

lemma paginate_diverges:
  assumes "psize \<le> 0" and "chat \<noteq> []"
  shows "paginate chat psize = None"
proof -
  from assms(2) have ne: "fullTextOf chat \<noteq> []"
    by (cases chat) (simp_all add: messageText_def ascii_def)
  show ?thesis
  proof (cases "paginateLoop (fullTextOf chat) psize 0 []")
    case None
    with ne show ?thesis by (simp add: paginate_def)
  next
    case (Some r)
    from paginateLoop_Some_progress [OF this] assms(1) ne show ?thesis by simp
  qed
qed

section \<open>The two scans\<close>

lemma findChatStart_Found:
  "findChatStart chat i = Found k \<Longrightarrow>
     i \<le> k \<and> k < length chat \<and> fromUserOrCharacter (chat ! k)
     \<and> (\<forall>j. i \<le> j \<and> j < k \<longrightarrow> \<not> fromUserOrCharacter (chat ! j))"
proof (induction chat i rule: findChatStart.induct)
  case (1 chat i)
  show ?case
  proof (cases "i < length chat \<and> \<not> fromUserOrCharacter (chat ! i) \<and> i \<noteq> length chat - 1")
    case True
    with "1.prems" have "findChatStart chat (i + 1) = Found k"
      by (subst (asm) findChatStart.simps) simp
    with True "1.IH" have ih: "i + 1 \<le> k \<and> k < length chat \<and> fromUserOrCharacter (chat ! k)
      \<and> (\<forall>j. i + 1 \<le> j \<and> j < k \<longrightarrow> \<not> fromUserOrCharacter (chat ! j))" by simp
    show ?thesis
    proof (intro conjI allI impI)
      fix j assume "i \<le> j \<and> j < k"
      then have "j = i \<or> (i + 1 \<le> j \<and> j < k)" by arith
      with True ih show "\<not> fromUserOrCharacter (chat ! j)" by blast
    qed (use ih in simp_all)
  next
    case False
    with "1.prems" have "k = i \<and> i < length chat \<and> fromUserOrCharacter (chat ! i)"
      by (subst (asm) findChatStart.simps) (auto split: if_splits)
    then show ?thesis by auto
  qed
qed

lemma findChatStart_all_system:
  "i < length chat \<Longrightarrow> \<forall>j. i \<le> j \<and> j < length chat \<longrightarrow> \<not> fromUserOrCharacter (chat ! j)
     \<Longrightarrow> findChatStart chat i = AllSystem"
proof (induction chat i rule: findChatStart.induct)
  case (1 chat i)
  show ?case
  proof (cases "i = length chat - 1")
    case True
    with "1.prems" show ?thesis by (subst findChatStart.simps) simp
  next
    case False
    with "1.prems" have "findChatStart chat (i + 1) = AllSystem"
      by (intro "1.IH") auto
    with False "1.prems" show ?thesis by (subst findChatStart.simps) simp
  qed
qed

lemma findChatStart_NoBreak:
  "findChatStart chat i = NoBreak \<Longrightarrow> length chat \<le> i"
proof (induction chat i rule: findChatStart.induct)
  case (1 chat i)
  show ?case
  proof (rule ccontr)
    assume "\<not> length chat \<le> i"
    then have lt: "i < length chat" by simp
    with "1.prems" have "\<not> fromUserOrCharacter (chat ! i) \<and> i \<noteq> length chat - 1 \<and> findChatStart chat (i + 1) = NoBreak"
      by (subst (asm) findChatStart.simps) (auto split: if_splits)
    with lt "1.IH" have "length chat \<le> i + 1" by simp
    with lt \<open>\<not> fromUserOrCharacter (chat ! i) \<and> i \<noteq> length chat - 1 \<and> findChatStart chat (i + 1) = NoBreak\<close>
    show False by arith
  qed
qed

lemma length_fullTextOf_append:
  "length (fullTextOf (xs @ ys)) = length (fullTextOf xs) + length (fullTextOf ys)"
  by (induction xs) simp_all

lemma fullTextOf_drop_step:
  "k < length w \<Longrightarrow> fullTextOf (drop k w) = messageText (w ! k) @ fullTextOf (drop (Suc k) w)"
  by (simp add: Cons_nth_drop_Suc [symmetric])

lemma length_fullTextOf_drop_mono:
  "k \<le> r \<Longrightarrow> length (fullTextOf (drop r w)) \<le> length (fullTextOf (drop k w))"
proof -
  assume "k \<le> r"
  then have "drop k w = take (r - k) (drop k w) @ drop r w"
    by (metis append_take_drop_id drop_drop le_add_diff_inverse2)
  then have "length (fullTextOf (drop k w)) = length (fullTextOf (take (r - k) (drop k w))) + length (fullTextOf (drop r w))"
    by (metis length_fullTextOf_append)
  then show ?thesis by simp
qed

lemma splitScan_spec:
  assumes "i = int s - 1" and "s \<le> length w" and "c = length (fullTextOf (drop s w))"
  shows "splitScan w limit i c s \<le> s
       \<and> (splitScan w limit i c s < s \<longrightarrow>
            int (length (fullTextOf (drop (splitScan w limit i c s) w))) \<le> limit)
       \<and> (0 < splitScan w limit i c s \<longrightarrow>
            limit < int (length (fullTextOf (drop (splitScan w limit i c s - 1) w))))"
  using assms
proof (induction w limit i c s rule: splitScan.induct)
  case (1 w limit i c s)
  show ?case
  proof (cases "0 \<le> i")
    case False
    with "1.prems" have "s = 0" by simp
    moreover from False have "splitScan w limit i c s = s" by (subst splitScan.simps) simp
    ultimately show ?thesis by simp
  next
    case True
    with "1.prems" have s: "0 < s" "nat i = s - 1" "nat i < length w" by auto
    let ?t = "messageText (w ! nat i)"
    have total: "length (fullTextOf (drop (s - 1) w)) = c + length ?t"
      using s "1.prems" fullTextOf_drop_step [of "s - 1" w] by simp
    show ?thesis
    proof (cases "int (c + length ?t) > limit")
      case True
      with \<open>0 \<le> i\<close> have "splitScan w limit i c s = s" by (subst splitScan.simps) simp
      with True total show ?thesis by simp
    next
      case False
      with \<open>0 \<le> i\<close> have eq: "splitScan w limit i c s = splitScan w limit (i - 1) (c + length ?t) (nat i)"
        by (subst splitScan.simps) (simp add: Let_def)
      define r where "r = splitScan w limit (i - 1) (c + length ?t) (nat i)"
      have ih: "r \<le> nat i
         \<and> (r < nat i \<longrightarrow> int (length (fullTextOf (drop r w))) \<le> limit)
         \<and> (0 < r \<longrightarrow> limit < int (length (fullTextOf (drop (r - 1) w))))"
        unfolding r_def using True False s total by (intro "1.IH") (auto simp: Let_def)
      have base: "int (length (fullTextOf (drop (nat i) w))) \<le> limit"
        using False total s by simp
      have "r \<le> s" using ih s by arith
      moreover have "int (length (fullTextOf (drop r w))) \<le> limit"
        using ih base by (cases "r = nat i") auto
      ultimately show ?thesis using ih unfolding eq r_def [symmetric] by simp
    qed
  qed
qed

section \<open>Effects of summarizePage\<close>

lemma toastr_error_simps [simp]:
  "toasts (toastr_error msg w) = toasts w @ [msg]"
  "console (toastr_error msg w) = console w"
  "requests (toastr_error msg w) = requests w"
  "dynamicMemory (toastr_error msg w) = dynamicMemory w"
  "extensionSettings (toastr_error msg w) = extensionSettings w"
  by (simp_all add: toastr_error_def)

lemma console_error_simps [simp]:
  "toasts (console_error args w) = toasts w"
  "console (console_error args w) = console w @ [(LevelError, args)]"
  "requests (console_error args w) = requests w"
  "dynamicMemory (console_error args w) = dynamicMemory w"
  "extensionSettings (console_error args w) = extensionSettings w"
  by (simp_all add: console_error_def)

lemma console_log_simps [simp]:
  "toasts (console_log args w) = toasts w"
  "console (console_log args w) = console w @ [(LevelLog, args)]"
  "requests (console_log args w) = requests w"
  "dynamicMemory (console_log args w) = dynamicMemory w"
  "extensionSettings (console_log args w) = extensionSettings w"
  by (simp_all add: console_log_def)

lemma getSettings_frame [simp]:
  "toasts (snd (getSettings w)) = toasts w"
  "console (snd (getSettings w)) = console w"
  "requests (snd (getSettings w)) = requests w"
  "dynamicMemory (snd (getSettings w)) = dynamicMemory w"
  by (simp_all add: getSettings_def Let_def)

text \<open>readChoices either throws, or reports an invalid response, or returns the digest.\<close>

lemma readChoices_cases:
  "(\<exists>e. readChoices data w = (Inl e, w))
   \<or> readChoices data w =
        (Inr None,
         console_error [LogString (ascii ''Dynamic Memory: Invalid API response''), LogValue data]
           (toastr_error (ascii ''Dynamic Memory: Invalid API response. See console for details.'') w))
   \<or> (\<exists>d. readChoices data w = (Inr (Some d), w))"
  by (simp add: readChoices_def split: sum.splits)

lemma fst_readChoices_world: "fst (readChoices data w) = fst (readChoices data v)"
  by (simp add: readChoices_def split: sum.splits)

lemma tryBlock_cases:
  "(\<exists>e. tryBlock srv st prompt w = (Inl e, w\<lparr>requests := requests w @ [requestOf st prompt]\<rparr>))
   \<or> (\<exists>d. tryBlock srv st prompt w = (Inr (Some d), w\<lparr>requests := requests w @ [requestOf st prompt]\<rparr>))
   \<or> (\<exists>t es. fst (tryBlock srv st prompt w) = Inr None
        \<and> toasts (snd (tryBlock srv st prompt w)) = toasts w @ [t]
        \<and> console (snd (tryBlock srv st prompt w)) = console w @ es
        \<and> es \<noteq> [] \<and> (\<forall>e\<in>set es. fst e = LevelError)
        \<and> requests (snd (tryBlock srv st prompt w)) = requests w @ [requestOf st prompt]
        \<and> dynamicMemory (snd (tryBlock srv st prompt w)) = dynamicMemory w)"
proof -
  let ?w1 = "w\<lparr>requests := requests w @ [requestOf st prompt]\<rparr>"
  show ?thesis
  proof (cases "srv (length (requests w)) (requestOf st prompt)")
    case (Inl e)
    then show ?thesis by (simp add: tryBlock_def fetch_def)
  next
    case (Inr response)
    show ?thesis
    proof (cases "resp_ok response")
      case False
      with Inr show ?thesis
        by (cases "resp_text response") (simp_all add: tryBlock_def fetch_def)
    next
      case True
      show ?thesis
      proof (cases "resp_json response")
        case (Inl e)
        with Inr True show ?thesis by (simp add: tryBlock_def fetch_def)
      next
        case data: (Inr data)
        have eq: "tryBlock srv st prompt w = readChoices data ?w1"
          using Inr True data by (simp add: tryBlock_def fetch_def)
        from readChoices_cases [of data ?w1] show ?thesis
          unfolding eq by (elim disjE exE) simp_all
      qed
    qed
  qed
qed


lemma summarizePage_cases:
  "(\<exists>d. summarizePage srv page ps st w
          = (Inr (Some d), w\<lparr>requests := requests w @ [requestOf st (promptOf ps page)]\<rparr>))
   \<or> (\<exists>t es. fst (summarizePage srv page ps st w) = Inr None
        \<and> toasts (snd (summarizePage srv page ps st w)) = toasts w @ [t]
        \<and> console (snd (summarizePage srv page ps st w)) = console w @ es
        \<and> es \<noteq> [] \<and> (\<forall>e\<in>set es. fst e = LevelError)
        \<and> requests (snd (summarizePage srv page ps st w))
            = (if apiKey st = [] then requests w else requests w @ [requestOf st (promptOf ps page)])
        \<and> dynamicMemory (snd (summarizePage srv page ps st w)) = dynamicMemory w)"
proof (cases "apiKey st = []")
  case True
  then show ?thesis by (simp add: summarizePage_def)
next
  case False
  let ?prompt = "promptOf ps page"
  have eq: "summarizePage srv page ps st w = tryCatch (tryBlock srv st ?prompt) catchBlock w"
    using False by (simp add: summarizePage_def)
  from tryBlock_cases [of srv st ?prompt w] show ?thesis
  proof (elim disjE exE conjE)
    fix e
    assume "tryBlock srv st ?prompt w = (Inl e, w\<lparr>requests := requests w @ [requestOf st ?prompt]\<rparr>)"
    with False show ?thesis
      unfolding eq by (simp add: tryCatch_def catchBlock_def)
  next
    fix d
    assume "tryBlock srv st ?prompt w = (Inr (Some d), w\<lparr>requests := requests w @ [requestOf st ?prompt]\<rparr>)"
    then show ?thesis unfolding eq by (simp add: tryCatch_def)
  next
    fix t es
    assume a: "fst (tryBlock srv st ?prompt w) = Inr None"
      "toasts (snd (tryBlock srv st ?prompt w)) = toasts w @ [t]"
      "console (snd (tryBlock srv st ?prompt w)) = console w @ es"
      "es \<noteq> []" "\<forall>e\<in>set es. fst e = LevelError"
      "requests (snd (tryBlock srv st ?prompt w)) = requests w @ [requestOf st ?prompt]"
      "dynamicMemory (snd (tryBlock srv st ?prompt w)) = dynamicMemory w"
    obtain r v where rv: "tryBlock srv st ?prompt w = (r, v)" by (cases "tryBlock srv st ?prompt w")
    with a have "tryCatch (tryBlock srv st ?prompt) catchBlock w = (Inr None, v)"
      by (simp add: tryCatch_def)
    with a rv False show ?thesis unfolding eq by auto
  qed
qed

lemma summarizePage_no_throw: "\<exists>r. fst (summarizePage srv page ps st w) = Inr r"
  using summarizePage_cases [of srv page ps st w] by auto

lemma summarizePage_requests:
  "requests (snd (summarizePage srv page ps st w))
     = (if apiKey st = [] then requests w else requests w @ [requestOf st (promptOf ps page)])"
proof -
  from summarizePage_cases [of srv page ps st w] show ?thesis
  proof (elim disjE exE conjE)
    fix d
    assume d: "summarizePage srv page ps st w
          = (Inr (Some d), w\<lparr>requests := requests w @ [requestOf st (promptOf ps page)]\<rparr>)"
    then have "apiKey st \<noteq> []" by (auto simp: summarizePage_def split: if_splits)
    with d show ?thesis by simp
  qed simp
qed

lemma fst_tryBlock_world:
  "length (requests w) = length (requests v) \<Longrightarrow>
     fst (tryBlock srv st prompt w) = fst (tryBlock srv st prompt v)"
  using fst_readChoices_world
  by (auto simp: tryBlock_def fetch_def split: sum.splits)

lemma fst_summarizePage_world:
  assumes "length (requests w) = length (requests v)"
  shows "fst (summarizePage srv page ps st w) = fst (summarizePage srv page ps st v)"
proof (cases "apiKey st = []")
  case True
  then show ?thesis by (simp add: summarizePage_def)
next
  case False
  let ?prompt = "promptOf ps page"
  from assms have eq: "fst (tryBlock srv st ?prompt w) = fst (tryBlock srv st ?prompt v)"
    by (rule fst_tryBlock_world)
  obtain r1 w1 where a: "tryBlock srv st ?prompt w = (r1, w1)" by (cases "tryBlock srv st ?prompt w")
  obtain r2 w2 where b: "tryBlock srv st ?prompt v = (r2, w2)" by (cases "tryBlock srv st ?prompt v")
  from eq a b have "r1 = r2" by simp
  with False a b show ?thesis
    by (cases r2) (simp_all add: summarizePage_def tryCatch_def catchBlock_def)
qed

lemma pageSummaries_world:
  "length (requests w) = length (requests v) \<Longrightarrow>
     pageSummaries srv pages ps st w = pageSummaries srv pages ps st v"
proof (induction pages arbitrary: w v)
  case Nil
  show ?case by simp
next
  case (Cons page pages)
  have "length (requests (snd (summarizePage srv page ps st w)))
      = length (requests (snd (summarizePage srv page ps st v)))"
    using Cons.prems by (simp add: summarizePage_requests)
  then have "pageSummaries srv pages ps st (snd (summarizePage srv page ps st w))
           = pageSummaries srv pages ps st (snd (summarizePage srv page ps st v))"
    by (rule Cons.IH)
  with Cons.prems show ?case by (simp add: fst_summarizePage_world [of w v])
qed

lemma summarizeLoop_digests:
  "fst (summarizeLoop srv pages ps st acc w)
     = Inr (acc @ nonEmptyDigests (pageSummaries srv pages ps st w))"
proof (induction pages arbitrary: acc w)
  case Nil
  show ?case by simp
next
  case (Cons page pages)
  obtain r w' where rw: "summarizePage srv page ps st w = (r, w')"
    by (cases "summarizePage srv page ps st w")
  with summarizePage_no_throw [of srv page ps st w] obtain s where r: "r = Inr s" by auto
  show ?case
  proof (cases s)
    case None
    with rw r Cons.IH [of acc w'] show ?thesis by simp
  next
    case (Some d)
    with rw r Cons.IH [of "acc @ [d]" w'] Cons.IH [of acc w'] show ?thesis by simp
  qed
qed

lemma summarizeLoop_requests_mono:
  "\<exists>rs. requests (snd (summarizeLoop srv pages ps st acc w)) = requests w @ rs"
proof (induction pages arbitrary: acc w)
  case Nil
  show ?case by simp
next
  case (Cons page pages)
  obtain r w' where rw: "summarizePage srv page ps st w = (r, w')"
    by (cases "summarizePage srv page ps st w")
  with summarizePage_no_throw [of srv page ps st w] obtain s where r: "r = Inr s" by auto
  from rw summarizePage_requests [of srv page ps st w]
  obtain rs0 where rs0: "requests w' = requests w @ rs0" by (cases "apiKey st = []") auto
  let ?acc = "case s of None \<Rightarrow> acc | Some d \<Rightarrow> if d \<noteq> [] then acc @ [d] else acc"
  from Cons.IH [of ?acc w'] obtain rs where "requests (snd (summarizeLoop srv pages ps st ?acc w')) = requests w' @ rs"
    by blast
  with rw r rs0 show ?case by simp
qed

section \<open>The run of the interceptor\<close>

lemma dynamicMemoryInterceptor_summarizes:
  assumes st: "st = fst (getSettings w)"
    and on: "enabled st" and long: "3 \<le> length chat"
    and found: "findChatStart chat 0 \<noteq> AllSystem"
    and hist: "historyOf st chat \<noteq> []"
    and pages: "paginate (historyOf st chat) (pageSize st) = Some pages"
    and D: "D = nonEmptyDigests (pageSummaries srv pages (presentSituationText (presentOf st chat)) st w)"
  shows "\<exists>w'. dynamicMemoryInterceptor srv now chat w
           = Some (Inr (),
                   (if D = [] then chat
                    else initialSystemMessages chat @ [memoryMessage now D] @ presentOf st chat),
                   w')
         \<and> dynamicMemory w' = D"
proof -
  obtain w1 where gs: "getSettings w = (st, w1)" using st by (cases "getSettings w") simp
  define w2 where "w2 = console_log [LogString (ascii ''Dynamic Memory Interceptor triggered'')] w1"
  have "requests w2 = requests w"
    using gs getSettings_frame(3) [of w] by (simp add: w2_def)
  then have ps: "pageSummaries srv pages (presentSituationText (presentOf st chat)) st w2
               = pageSummaries srv pages (presentSituationText (presentOf st chat)) st w"
    by (intro pageSummaries_world) simp
  obtain r w3 where loop: "summarizeLoop srv pages (presentSituationText (presentOf st chat)) st [] w2 = (r, w3)"
    by (cases "summarizeLoop srv pages (presentSituationText (presentOf st chat)) st [] w2")
  with summarizeLoop_digests [of srv pages "presentSituationText (presentOf st chat)" st "[]" w2] ps D
  have r: "r = Inr D" by simp
  show ?thesis
    using gs on long found hist pages loop r
    by (simp add: dynamicMemoryInterceptor_def Let_def w2_def [symmetric])
qed

lemma dynamicMemoryInterceptor_cases:
  assumes "dynamicMemoryInterceptor srv now chat w = Some (r, chat', w')"
  shows "chat' = chat
       \<or> (r = Inr () \<and> dynamicMemory w' \<noteq> []
          \<and> enabled (fst (getSettings w)) \<and> 3 \<le> length chat \<and> findChatStart chat 0 \<noteq> AllSystem
          \<and> historyOf (fst (getSettings w)) chat \<noteq> []
          \<and> chat' = initialSystemMessages chat @ [memoryMessage now (dynamicMemory w')]
                      @ presentOf (fst (getSettings w)) chat)"
  using assms
  by (auto simp: dynamicMemoryInterceptor_def Let_def
           split: prod.splits if_splits option.splits sum.splits)

lemma dynamicMemoryInterceptor_returns:
  assumes "0 < pageSize (fst (getSettings w))"
  shows "\<exists>chat' w'. dynamicMemoryInterceptor srv now chat w = Some (Inr (), chat', w')"
proof -
  let ?st = "fst (getSettings w)"
  show ?thesis
  proof (cases "enabled ?st \<and> 3 \<le> length chat \<and> findChatStart chat 0 \<noteq> AllSystem
                 \<and> historyOf ?st chat \<noteq> []")
    case True
    from paginate_returns [OF assms, of "historyOf ?st chat"]
    obtain pages where "paginate (historyOf ?st chat) (pageSize ?st) = Some pages" by blast
    with True dynamicMemoryInterceptor_summarizes [of ?st w chat pages _ srv now]
    show ?thesis by blast
  next
    case False
    then show ?thesis
      by (auto simp: dynamicMemoryInterceptor_def Let_def case_prod_beta)
  qed
qed

lemma dynamicMemoryInterceptor_guard:
  assumes "\<not> enabled (fst (getSettings w)) \<or> length chat < 3"
  shows "dynamicMemoryInterceptor srv now chat w = Some (Inr (), chat, snd (getSettings w))"
  using assms by (auto simp: dynamicMemoryInterceptor_def case_prod_beta)

text \<open>A run that reaches \<open>paginate\<close> with \<open>pageSize \<le> 0\<close> does not return.\<close>

lemma dynamicMemoryInterceptor_diverges:
  assumes "st = fst (getSettings w)"
    and "enabled st" and "3 \<le> length chat" and "findChatStart chat 0 \<noteq> AllSystem"
    and "historyOf st chat \<noteq> []" and "pageSize st \<le> 0"
  shows "dynamicMemoryInterceptor srv now chat w = None"
  using assms paginate_diverges [of "pageSize st" "historyOf st chat"]
  by (simp add: dynamicMemoryInterceptor_def case_prod_beta Let_def)

section \<open>The example inputs evaluated\<close>

text \<open>Unfolding rules for running the model on the example inputs.\<close>

lemmas example_defs =
  exChat_def exRules_def exHi_def exHello_def exGoOn_def exWorld_def exResponse_def
  exServer_def exBlankServer_def exDownServer_def

lemmas splitter_defs =
  ascii_def newline_def messageText_def fromUserOrCharacter_def findChatStart.simps
  chatStartIndex_def workableChat_def initialSystemMessages_def splitScan.simps splitIndex_def
  historyToSummarize_def presentChat_def presentSituationText_def getSettings_def
  defaultSettings_def

lemmas paginate_defs = paginate_def paginateLoop.simps substring_def

lemmas summarize_defs =
  summarizePage_def tryCatch_def tryBlock_def catchBlock_def fetch_def readChoices_def
  requestOf_def promptOf_def console_log_def console_error_def toastr_error_def
  isWhiteSpace_def trim_def decimal.simps

lemma ex_settings:
  "fst (getSettings (exWorld psize limit key))
     = \<lparr> enabled = True, pageSize = psize, presentSituationSize = limit,
         apiUrl = apiUrl defaultSettings, apiKey = key,
         summarizeModel = summarizeModel defaultSettings \<rparr>"
  by (simp add: exWorld_def getSettings_def)

lemma ex_found: "findChatStart exChat 0 = Found 1"
  by (simp add: example_defs splitter_defs)

lemma ex_workable: "workableChat exChat = [exHi, exHello, exGoOn]"
  unfolding workableChat_def chatStartIndex_def ex_found by (simp add: exChat_def)

lemma ex_initial: "initialSystemMessages exChat = [exRules]"
  unfolding initialSystemMessages_def chatStartIndex_def ex_found by (simp add: exChat_def)

lemma ex_split_25: "splitIndex [exHi, exHello, exGoOn] 25 = 1"
  by (simp add: example_defs splitter_defs)

lemma ex_split_5: "splitIndex [exHi, exHello, exGoOn] 5 = 3"
  by (simp add: example_defs splitter_defs)

lemma ex_pages: "paginate [exHi] 5 = Some [ascii ''User:'', ascii '' hi'' @ newline]"
  by (simp add: example_defs splitter_defs paginate_defs)

lemma ex_present_text:
  "presentSituationText [exHello, exGoOn] = ascii ''Bot: hello'' @ newline @ ascii ''User: go on''"
  by (simp add: example_defs splitter_defs)


lemma ex_history_25: "historyOf (fst (getSettings (exWorld psize 25 key))) exChat = [exHi]"
  by (simp add: ex_settings ex_workable historyToSummarize_def ex_split_25)

lemma ex_present_25: "presentOf (fst (getSettings (exWorld psize 25 key))) exChat = [exHello, exGoOn]"
  by (simp add: ex_settings ex_workable presentChat_def ex_split_25)

lemma ex_blank_summaries:
  "pageSummaries exBlankServer [ascii ''User:'', ascii '' hi'' @ newline] ps
     (fst (getSettings (exWorld 5 25 (ascii ''key'')))) (exWorld 5 25 (ascii ''key''))
   = [Inr (Some []), Inr (Some [])]"
  unfolding ex_settings
  by (simp add: exBlankServer_def exResponse_def exWorld_def summarize_defs ascii_def)

lemma ex_summaries:
  "pageSummaries exServer [ascii ''User:'', ascii '' hi'' @ newline] ps
     (fst (getSettings (exWorld 5 25 (ascii ''key'')))) (exWorld 5 25 (ascii ''key''))
   = [Inr (Some (ascii ''likes tea'')), Inr (Some [])]"
  unfolding ex_settings
  by (simp add: exServer_def exResponse_def exWorld_def summarize_defs ascii_def)

lemma ex_down_summaries:
  "pageSummaries exDownServer [ascii ''User:'', ascii '' hi'' @ newline] ps
     (fst (getSettings (exWorld 5 25 (ascii ''key'')))) (exWorld 5 25 (ascii ''key''))
   = [Inr None, Inr None]"
  unfolding ex_settings
  by (simp add: exDownServer_def exWorld_def summarize_defs ascii_def)

lemma ex_pages_all:
  "paginate [exHi, exHello, exGoOn] 2000
     = Some [ascii ''User: hi'' @ newline @ ascii ''Bot: hello'' @ newline @ ascii ''User: go on'' @ newline]"
  by (simp add: example_defs splitter_defs paginate_defs)

lemma ex_summaries_all:
  "pageSummaries exServer [page] ps
     (fst (getSettings (exWorld 2000 5 (ascii ''key'')))) (exWorld 2000 5 (ascii ''key''))
   = [Inr (Some (ascii ''likes tea''))]"
  unfolding ex_settings
  by (simp add: exServer_def exResponse_def exWorld_def summarize_defs ascii_def)

lemma ex_disabled_settings:
  "fst (getSettings (exDisabledWorld psize limit key))
     = \<lparr> enabled = False, pageSize = psize, presentSituationSize = limit,
         apiUrl = apiUrl defaultSettings, apiKey = key,
         summarizeModel = summarizeModel defaultSettings \<rparr>"
  by (simp add: exDisabledWorld_def exWorld_def getSettings_def)

lemma ex_short_found: "findChatStart [exHi, exGoOn] 0 = Found 0"
  by (simp add: example_defs splitter_defs)

lemma ex_short_workable: "workableChat [exHi, exGoOn] = [exHi, exGoOn]"
  unfolding workableChat_def chatStartIndex_def ex_short_found by simp

lemma ex_goOn_length: "length (messageText exGoOn) = 12"
  by (simp add: exGoOn_def messageText_def newline_def ascii_def)

text \<open>
  The spec's example: with \<open>presentSituationSize = 1000\<close> the whole example chat fits, the
  history is empty and the run changes nothing but the console.
\<close>

lemma ex_fits_no_op:
  "chatAfter (dynamicMemoryInterceptor exServer 7 exChat (exWorld 2000 1000 (ascii ''key''))) = Some exChat
   \<and> worldAfter (dynamicMemoryInterceptor exServer 7 exChat (exWorld 2000 1000 (ascii ''key'')))
      = Some (console_log [LogString (ascii ''Dynamic Memory: No history to summarize.'')]
               (console_log [LogString (ascii ''Dynamic Memory Interceptor triggered'')]
                  (snd (getSettings (exWorld 2000 1000 (ascii ''key''))))))"
proof -
  have "splitIndex [exHi, exHello, exGoOn] 1000 = 0"
    by (simp add: example_defs splitter_defs)
  then have "historyOf (fst (getSettings (exWorld 2000 1000 (ascii ''key'')))) exChat = []"
    by (simp add: ex_settings ex_workable historyToSummarize_def)
  moreover have "\<not> length exChat < 3" by (simp add: exChat_def)
  ultimately show ?thesis
    by (simp add: dynamicMemoryInterceptor_def case_prod_beta Let_def ex_settings ex_found
          chatAfter_def worldAfter_def)
qed

section \<open>The window splitter\<close>

lemma splitIndex_spec:
  "splitIndex w limit \<le> length w
   \<and> (splitIndex w limit < length w \<longrightarrow> int (length (fullTextOf (drop (splitIndex w limit) w))) \<le> limit)
   \<and> (0 < splitIndex w limit \<longrightarrow> limit < int (length (fullTextOf (drop (splitIndex w limit - 1) w))))"
  unfolding splitIndex_def
  by (rule splitScan_spec) simp_all

text \<open>
  C2: for every workable sequence and every threshold the backward scan splits between
  whole messages: \<open>history @ present\<close> is the workable sequence; the rendered length of
  \<open>present\<close> does not exceed a threshold that is not negative (under a negative one
  \<open>present\<close> is empty); and \<open>present\<close> is maximal, since every trailing run that starts
  inside \<open>history\<close>, in particular the one starting at its last message, exceeds the
  threshold.
\<close>

theorem backward_scan_whole_message_split:
  "historyToSummarize workable limit @ presentChat workable limit = workable
   \<and> (0 \<le> limit \<longrightarrow> int (length (fullTextOf (presentChat workable limit))) \<le> limit)
   \<and> (limit < 0 \<longrightarrow> presentChat workable limit = [])
   \<and> (\<forall>j<length (historyToSummarize workable limit).
         limit < int (length (fullTextOf (drop j workable))))"
proof -
  define k where "k = splitIndex workable limit"
  from splitIndex_spec [of workable limit]
  have k: "k \<le> length workable"
    and fits: "k < length workable \<Longrightarrow> int (length (fullTextOf (drop k workable))) \<le> limit"
    and stop: "0 < k \<Longrightarrow> limit < int (length (fullTextOf (drop (k - 1) workable)))"
    by (simp_all add: k_def)
  have whole: "historyToSummarize workable limit @ presentChat workable limit = workable"
    by (simp add: historyToSummarize_def presentChat_def)
  have bounded: "int (length (fullTextOf (presentChat workable limit))) \<le> limit" if "0 \<le> limit"
  proof (cases "k < length workable")
    case True
    with fits show ?thesis by (simp add: presentChat_def k_def)
  next
    case False
    with k have "drop k workable = []" by simp
    with that show ?thesis by (simp add: presentChat_def k_def)
  qed
  have negative: "presentChat workable limit = []" if "limit < 0"
  proof (rule ccontr)
    assume "presentChat workable limit \<noteq> []"
    then have "k < length workable" by (simp add: presentChat_def k_def)
    with fits that show False by simp
  qed
  have maximal: "limit < int (length (fullTextOf (drop j workable)))"
    if "j < length (historyToSummarize workable limit)" for j
  proof -
    from that k have j: "j < k" by (simp add: historyToSummarize_def k_def)
    then have "0 < k" and "j \<le> k - 1" by simp_all
    from length_fullTextOf_drop_mono [OF \<open>j \<le> k - 1\<close>, of workable] stop [OF \<open>0 < k\<close>]
    show ?thesis by simp
  qed
  from whole bounded negative maximal show ?thesis by blast
qed

theorem backward_scan_whole_message_split_witness:
  "(0::int) \<le> 25
   \<and> historyToSummarize [exHi, exHello, exGoOn] 25 = [exHi]
   \<and> presentChat [exHi, exHello, exGoOn] 25 = [exHello, exGoOn]
   \<and> historyToSummarize [exHi, exHello, exGoOn] 25 @ presentChat [exHi, exHello, exGoOn] 25
       = [exHi, exHello, exGoOn]
   \<and> int (length (fullTextOf (presentChat [exHi, exHello, exGoOn] 25))) \<le> 25
   \<and> (0::nat) < length (historyToSummarize [exHi, exHello, exGoOn] 25)
   \<and> 25 < int (length (fullTextOf (drop 0 [exHi, exHello, exGoOn])))"
proof -
  have h: "historyToSummarize [exHi, exHello, exGoOn] 25 = [exHi]"
    and p: "presentChat [exHi, exHello, exGoOn] 25 = [exHello, exGoOn]"
    by (simp_all add: historyToSummarize_def presentChat_def ex_split_25)
  from backward_scan_whole_message_split [of "[exHi, exHello, exGoOn]" 25] h p
  show ?thesis by simp
qed

lemma splitIndex_oversized_last:
  assumes "workable \<noteq> []" and "limit < int (length (messageText (last workable)))"
  shows "splitIndex workable limit = length workable"
  using assms unfolding splitIndex_def
  by (subst splitScan.simps) (simp add: last_conv_nth Let_def nat_diff_distrib')

lemma workableChat_has_message:
  assumes "chat \<noteq> []" and "findChatStart chat 0 \<noteq> AllSystem"
  shows "workableChat chat \<noteq> []"
proof -
  obtain k where k: "findChatStart chat 0 = Found k"
    using assms findChatStart_NoBreak [of chat 0] by (cases "findChatStart chat 0") auto
  with findChatStart_Found [of chat 0 k] have "k < length chat" by simp
  with k show ?thesis by (simp add: workableChat_def chatStartIndex_def)
qed

lemma presentSituationText_Nil: "presentSituationText [] = []"
  by (simp add: presentSituationText_def)

text \<open>
  C1, as the code has it.  Take a chat that has a workable message (it is not empty and not
  made of system messages only) and whose most recent workable message alone renders to more
  than \<open>presentSituationSize\<close>.  Then the backward scan stops at once: \<open>present\<close> is empty
  and \<open>history\<close> is the whole workable sequence, which is not empty.  What the interceptor
  does with it depends on its first guard.  With the extension disabled or fewer than 3
  messages it returns at once: the chat array is unchanged, no \<open>fetch\<close> call is made and
  \<open>dynamicMemory\<close> is not written.  With the extension enabled, at least 3 messages and
  \<open>pageSize > 0\<close> it paginates and summarizes the history, stores the non-empty digests in
  \<open>dynamicMemory\<close>, and leaves the chat array unchanged when there is no such digest and
  otherwise replaces it by the initial system messages followed by the summary message.
\<close>

theorem oversized_last_message_split_and_run:
  assumes "st = fst (getSettings w)"
    and "chat \<noteq> []" and "findChatStart chat 0 \<noteq> AllSystem"
    and "presentSituationSize st < int (length (messageText (last (workableChat chat))))"
  shows "presentOf st chat = [] \<and> historyOf st chat = workableChat chat \<and> historyOf st chat \<noteq> []
       \<and> (\<not> enabled st \<or> length chat < 3 \<longrightarrow>
             (\<exists>w'. dynamicMemoryInterceptor srv now chat w = Some (Inr (), chat, w')
                \<and> requests w' = requests w \<and> dynamicMemory w' = dynamicMemory w))
       \<and> (enabled st \<and> 3 \<le> length chat \<and> 0 < pageSize st \<longrightarrow>
             (\<exists>pages w'.
                paginate (historyOf st chat) (pageSize st) = Some pages
                \<and> dynamicMemoryInterceptor srv now chat w
                    = Some (Inr (),
                            (if nonEmptyDigests (pageSummaries srv pages [] st w) = [] then chat
                             else initialSystemMessages chat
                                  @ [memoryMessage now (nonEmptyDigests (pageSummaries srv pages [] st w))]),
                            w')
                \<and> dynamicMemory w' = nonEmptyDigests (pageSummaries srv pages [] st w)))"
proof -
  have ne: "workableChat chat \<noteq> []" using assms(2,3) by (rule workableChat_has_message)
  with assms(4) have "splitIndex (workableChat chat) (presentSituationSize st) = length (workableChat chat)"
    by (intro splitIndex_oversized_last)
  then have pres: "presentOf st chat = []" and hist: "historyOf st chat = workableChat chat"
    by (simp_all add: presentChat_def historyToSummarize_def)
  from hist ne have hne: "historyOf st chat \<noteq> []" by simp
  have guard: "\<exists>w'. dynamicMemoryInterceptor srv now chat w = Some (Inr (), chat, w')
                \<and> requests w' = requests w \<and> dynamicMemory w' = dynamicMemory w"
    if "\<not> enabled st \<or> length chat < 3"
    using that assms(1) dynamicMemoryInterceptor_guard [of w chat srv now] by simp
  have run: "\<exists>pages w'.
                paginate (historyOf st chat) (pageSize st) = Some pages
                \<and> dynamicMemoryInterceptor srv now chat w
                    = Some (Inr (),
                            (if nonEmptyDigests (pageSummaries srv pages [] st w) = [] then chat
                             else initialSystemMessages chat
                                  @ [memoryMessage now (nonEmptyDigests (pageSummaries srv pages [] st w))]),
                            w')
                \<and> dynamicMemory w' = nonEmptyDigests (pageSummaries srv pages [] st w)"
    if "enabled st \<and> 3 \<le> length chat \<and> 0 < pageSize st"
  proof -
    from that have on: "enabled st" and long: "3 \<le> length chat" and pos: "0 < pageSize st" by simp_all
    from paginate_returns [OF pos, of "historyOf st chat"]
    obtain pages where pages: "paginate (historyOf st chat) (pageSize st) = Some pages" by blast
    from dynamicMemoryInterceptor_summarizes [OF assms(1) on long assms(3) hne pages refl, of srv now]
    obtain w' where "dynamicMemoryInterceptor srv now chat w
                    = Some (Inr (),
                            (if nonEmptyDigests (pageSummaries srv pages [] st w) = [] then chat
                             else initialSystemMessages chat
                                  @ [memoryMessage now (nonEmptyDigests (pageSummaries srv pages [] st w))]),
                            w')"
      and "dynamicMemory w' = nonEmptyDigests (pageSummaries srv pages [] st w)"
      unfolding pres presentSituationText_Nil by auto
    with pages show ?thesis by blast
  qed
  from pres hist hne guard run show ?thesis by blast
qed

theorem oversized_last_message_split_and_run_witness:
  "(let W = exWorld 2000 5 (ascii ''key''); st = fst (getSettings W);
        pages = [ascii ''User: hi'' @ newline @ ascii ''Bot: hello'' @ newline @ ascii ''User: go on'' @ newline]
    in exChat \<noteq> [] \<and> findChatStart exChat 0 \<noteq> AllSystem
       \<and> presentSituationSize st < int (length (messageText (last (workableChat exChat))))
       \<and> enabled st \<and> 3 \<le> length exChat \<and> 0 < pageSize st
       \<and> presentOf st exChat = [] \<and> historyOf st exChat = [exHi, exHello, exGoOn]
       \<and> paginate (historyOf st exChat) (pageSize st) = Some pages
       \<and> nonEmptyDigests (pageSummaries exServer pages [] st W) = [ascii ''likes tea'']
       \<and> (\<exists>w'. dynamicMemoryInterceptor exServer 7 exChat W
                 = Some (Inr (), [exRules, memoryMessage 7 [ascii ''likes tea'']], w')
              \<and> dynamicMemory w' = [ascii ''likes tea'']))
   \<and> (let W = exWorld 2000 5 (ascii ''key''); st = fst (getSettings W)
      in [exHi, exGoOn] \<noteq> [] \<and> findChatStart [exHi, exGoOn] 0 \<noteq> AllSystem
         \<and> presentSituationSize st < int (length (messageText (last (workableChat [exHi, exGoOn]))))
         \<and> length [exHi, exGoOn] < 3
         \<and> presentOf st [exHi, exGoOn] = [] \<and> historyOf st [exHi, exGoOn] = [exHi, exGoOn]
         \<and> (\<exists>w'. dynamicMemoryInterceptor exServer 7 [exHi, exGoOn] W = Some (Inr (), [exHi, exGoOn], w')
                \<and> requests w' = requests W \<and> dynamicMemory w' = dynamicMemory W))
   \<and> (let W = exDisabledWorld 2000 5 (ascii ''key''); st = fst (getSettings W)
      in exChat \<noteq> [] \<and> findChatStart exChat 0 \<noteq> AllSystem
         \<and> presentSituationSize st < int (length (messageText (last (workableChat exChat))))
         \<and> \<not> enabled st
         \<and> presentOf st exChat = [] \<and> historyOf st exChat = [exHi, exHello, exGoOn]
         \<and> (\<exists>w'. dynamicMemoryInterceptor exServer 7 exChat W = Some (Inr (), exChat, w')
                \<and> requests w' = requests W \<and> dynamicMemory w' = dynamicMemory W))"
proof -
  let ?W = "exWorld 2000 5 (ascii ''key'')"
  let ?st = "fst (getSettings ?W)"
  let ?D = "exDisabledWorld 2000 5 (ascii ''key'')"
  let ?sd = "fst (getSettings ?D)"
  let ?pages = "[ascii ''User: hi'' @ newline @ ascii ''Bot: hello'' @ newline @ ascii ''User: go on'' @ newline]"
  let ?short = "[exHi, exGoOn]"
  have a1: "exChat \<noteq> []" by (simp add: exChat_def)
  have a2: "findChatStart exChat 0 \<noteq> AllSystem" by (simp add: ex_found)
  have a3: "presentSituationSize ?st < int (length (messageText (last (workableChat exChat))))"
    unfolding ex_workable by (simp add: ex_settings ex_goOn_length)
  have a4: "enabled ?st \<and> 3 \<le> length exChat \<and> 0 < pageSize ?st"
    by (simp add: ex_settings exChat_def)
  from oversized_last_message_split_and_run [OF refl a1 a2 a3, of exServer 7] a4
  obtain pages w' where r1: "presentOf ?st exChat = []" "historyOf ?st exChat = workableChat exChat"
    and pg: "paginate (historyOf ?st exChat) (pageSize ?st) = Some pages"
    and run: "dynamicMemoryInterceptor exServer 7 exChat ?W
                = Some (Inr (),
                        (if nonEmptyDigests (pageSummaries exServer pages [] ?st ?W) = [] then exChat
                         else initialSystemMessages exChat
                              @ [memoryMessage 7 (nonEmptyDigests (pageSummaries exServer pages [] ?st ?W))]),
                        w')"
    and mem: "dynamicMemory w' = nonEmptyDigests (pageSummaries exServer pages [] ?st ?W)"
    by blast
  have hist: "historyOf ?st exChat = [exHi, exHello, exGoOn]" using r1(2) by (simp add: ex_workable)
  have "paginate (historyOf ?st exChat) (pageSize ?st) = Some ?pages"
    unfolding hist by (simp add: ex_settings ex_pages_all)
  with pg have pages: "pages = ?pages" by simp
  have dg: "nonEmptyDigests (pageSummaries exServer ?pages [] ?st ?W) = [ascii ''likes tea'']"
    unfolding ex_summaries_all by (simp add: ascii_def)
  have first: "exChat \<noteq> [] \<and> findChatStart exChat 0 \<noteq> AllSystem
       \<and> presentSituationSize ?st < int (length (messageText (last (workableChat exChat))))
       \<and> enabled ?st \<and> 3 \<le> length exChat \<and> 0 < pageSize ?st
       \<and> presentOf ?st exChat = [] \<and> historyOf ?st exChat = [exHi, exHello, exGoOn]
       \<and> paginate (historyOf ?st exChat) (pageSize ?st) = Some ?pages
       \<and> nonEmptyDigests (pageSummaries exServer ?pages [] ?st ?W) = [ascii ''likes tea'']
       \<and> (\<exists>w'. dynamicMemoryInterceptor exServer 7 exChat ?W
                 = Some (Inr (), [exRules, memoryMessage 7 [ascii ''likes tea'']], w')
              \<and> dynamicMemory w' = [ascii ''likes tea''])"
    using a1 a2 a3 a4 r1(1) hist pg run mem unfolding pages dg ex_initial by auto
  have b1: "?short \<noteq> []" by simp
  have b2: "findChatStart ?short 0 \<noteq> AllSystem" by (simp add: ex_short_found)
  have b3: "presentSituationSize ?st < int (length (messageText (last (workableChat ?short))))"
    unfolding ex_short_workable by (simp add: ex_settings ex_goOn_length)
  have b4: "length ?short < 3" by simp
  from oversized_last_message_split_and_run [OF refl b1 b2 b3, of exServer 7] b4
  have second: "?short \<noteq> [] \<and> findChatStart ?short 0 \<noteq> AllSystem
         \<and> presentSituationSize ?st < int (length (messageText (last (workableChat ?short))))
         \<and> length ?short < 3
         \<and> presentOf ?st ?short = [] \<and> historyOf ?st ?short = ?short
         \<and> (\<exists>w'. dynamicMemoryInterceptor exServer 7 ?short ?W = Some (Inr (), ?short, w')
                \<and> requests w' = requests ?W \<and> dynamicMemory w' = dynamicMemory ?W)"
    using b1 b2 b3 unfolding ex_short_workable by blast
  have c3: "presentSituationSize ?sd < int (length (messageText (last (workableChat exChat))))"
    unfolding ex_workable by (simp add: ex_disabled_settings ex_goOn_length)
  have c4: "\<not> enabled ?sd" by (simp add: ex_disabled_settings)
  from oversized_last_message_split_and_run [OF refl a1 a2 c3, of exServer 7] c4
  have third: "exChat \<noteq> [] \<and> findChatStart exChat 0 \<noteq> AllSystem
         \<and> presentSituationSize ?sd < int (length (messageText (last (workableChat exChat))))
         \<and> \<not> enabled ?sd
         \<and> presentOf ?sd exChat = [] \<and> historyOf ?sd exChat = [exHi, exHello, exGoOn]
         \<and> (\<exists>w'. dynamicMemoryInterceptor exServer 7 exChat ?D = Some (Inr (), exChat, w')
                \<and> requests w' = requests ?D \<and> dynamicMemory w' = dynamicMemory ?D)"
    using a1 a2 c3 unfolding ex_workable by auto
  from first second third show ?thesis unfolding Let_def by blast
qed

text \<open>
  C1 as stated fails: with \<open>presentSituationSize = 5\<close> the last message of the example
  chat renders to 12 characters, yet the history is not empty and the run replaces the chat
  array.
\<close>

theorem oversized_last_message_counterexample:
  "presentSituationSize (fst (getSettings (exWorld 2000 5 (ascii ''key''))))
     < int (length (messageText (last (workableChat exChat))))
   \<and> historyOf (fst (getSettings (exWorld 2000 5 (ascii ''key'')))) exChat \<noteq> []
   \<and> chatAfter (dynamicMemoryInterceptor exServer 7 exChat (exWorld 2000 5 (ascii ''key'')))
       = Some [exRules, memoryMessage 7 [ascii ''likes tea'']]
   \<and> chatAfter (dynamicMemoryInterceptor exServer 7 exChat (exWorld 2000 5 (ascii ''key'')))
       \<noteq> Some exChat"
  by (simp add: example_defs splitter_defs paginate_defs summarize_defs chatAfter_def
        dynamicMemoryInterceptor_def memoryMessage_def Let_def)

section \<open>Failures of a summarization call\<close>

lemma callTrim_Inr: "callTrim content = Inr trimmed \<Longrightarrow> \<exists>s. content = JString s \<and> trimmed = trim s"
  by (cases content) simp_all

lemma readChoices_Some:
  assumes "fst (readChoices data w) = Inr (Some d)"
  shows "\<exists>choices choice message s.
           getProp data (ascii ''choices'') = Inr choices
           \<and> truthy choices \<and> getProp choices (ascii ''length'') \<noteq> Inr (JNumber (Finite 0))
           \<and> getIndex0 choices = Inr choice
           \<and> getProp choice (ascii ''message'') = Inr message
           \<and> getProp message (ascii ''content'') = Inr (JString s)
           \<and> d = trim s"
  using assms
  by (auto simp: readChoices_def split: sum.splits if_splits dest!: callTrim_Inr)

lemma readChoices_no_choices:
  assumes "getProp data (ascii ''choices'') = Inr choices"
    and "choices = JUndefined \<or> choices = JNull \<or> choices = JArray []"
  shows "fst (readChoices data w) = Inr None"
  using assms by (auto simp: readChoices_def)

lemma summarizePage_Some:
  assumes "fst (summarizePage srv page ps st w) = Inr (Some d)"
  shows "apiKey st \<noteq> []
       \<and> (\<exists>response data. srv (length (requests w)) (requestOf st (promptOf ps page)) = Inr response
             \<and> resp_ok response \<and> resp_json response = Inr data
             \<and> fst (readChoices data w) = Inr (Some d))"
proof -
  let ?w1 = "w\<lparr>requests := requests w @ [requestOf st (promptOf ps page)]\<rparr>"
  have key: "apiKey st \<noteq> []"
    using assms by (auto simp: summarizePage_def split: if_splits)
  with assms have caught: "fst (tryCatch (tryBlock srv st (promptOf ps page)) catchBlock w) = Inr (Some d)"
    by (simp add: summarizePage_def)
  obtain r v where rv: "tryBlock srv st (promptOf ps page) w = (r, v)"
    by (cases "tryBlock srv st (promptOf ps page) w")
  with caught have r: "r = Inr (Some d)"
    by (cases r) (simp_all add: tryCatch_def catchBlock_def)
  from rv r have "\<exists>response data. srv (length (requests w)) (requestOf st (promptOf ps page)) = Inr response
             \<and> resp_ok response \<and> resp_json response = Inr data
             \<and> fst (readChoices data ?w1) = Inr (Some d)"
    by (auto simp: tryBlock_def fetch_def split: sum.splits if_splits)
  with key fst_readChoices_world [of _ ?w1 w] show ?thesis by auto
qed

text \<open>
  C7: \<open>summarizePage\<close> never throws: it returns \<open>null\<close> or a string.  It returns
  \<open>null\<close> when the key is empty (and then makes no \<open>fetch\<close> call), when \<open>fetch\<close>
  rejects, when the status is not a success, when the body is not JSON and when the choice
  list is missing or empty; more generally it returns a string only when the response is a
  success whose \<open>choices[0].message.content\<close> is a string, and then the trimmed content.
  Whenever it returns \<open>null\<close> it has shown one \<open>toastr.error\<close> notification and
  written at least one \<open>console.error\<close> entry.
\<close>

theorem summarizePage_absorbs_failures:
  assumes "result = summarizePage srv page ps st w"
    and "outcome = srv (length (requests w)) (requestOf st (promptOf ps page))"
  shows "(fst result = Inr None \<or> (\<exists>d. fst result = Inr (Some d)))
       \<and> (apiKey st = [] \<longrightarrow> fst result = Inr None \<and> requests (snd result) = requests w)
       \<and> (apiKey st \<noteq> [] \<and> (\<exists>e. outcome = Inl e) \<longrightarrow> fst result = Inr None)
       \<and> (apiKey st \<noteq> [] \<and> (\<exists>response. outcome = Inr response \<and> \<not> resp_ok response)
            \<longrightarrow> fst result = Inr None)
       \<and> (apiKey st \<noteq> [] \<and> (\<exists>response e. outcome = Inr response \<and> resp_ok response
                                  \<and> resp_json response = Inl e)
            \<longrightarrow> fst result = Inr None)
       \<and> (apiKey st \<noteq> [] \<and> (\<exists>response data choices. outcome = Inr response \<and> resp_ok response
                                  \<and> resp_json response = Inr data
                                  \<and> getProp data (ascii ''choices'') = Inr choices
                                  \<and> (choices = JUndefined \<or> choices = JNull \<or> choices = JArray []))
            \<longrightarrow> fst result = Inr None)
       \<and> (\<forall>d. fst result = Inr (Some d) \<longrightarrow>
             apiKey st \<noteq> []
             \<and> (\<exists>response data choices choice message s.
                   outcome = Inr response \<and> resp_ok response \<and> resp_json response = Inr data
                   \<and> getProp data (ascii ''choices'') = Inr choices \<and> getIndex0 choices = Inr choice
                   \<and> getProp choice (ascii ''message'') = Inr message
                   \<and> getProp message (ascii ''content'') = Inr (JString s) \<and> d = trim s))
       \<and> (fst result = Inr None \<longrightarrow>
             (\<exists>t es. toasts (snd result) = toasts w @ [t] \<and> console (snd result) = console w @ es
                \<and> es \<noteq> [] \<and> (\<forall>e\<in>set es. fst e = LevelError)))"
proof -
  have total: "fst result = Inr None \<or> (\<exists>d. fst result = Inr (Some d))"
    using summarizePage_cases [of srv page ps st w] assms(1) by auto
  have nokey: "fst result = Inr None \<and> requests (snd result) = requests w" if "apiKey st = []"
    using that assms(1) by (simp add: summarizePage_def)
  have rejected: "fst result = Inr None" if "apiKey st \<noteq> []" "outcome = Inl e" for e
    using that assms by (simp add: summarizePage_def tryCatch_def tryBlock_def fetch_def catchBlock_def)
  have status: "fst result = Inr None"
    if "apiKey st \<noteq> []" "outcome = Inr response" "\<not> resp_ok response" for response
    using that assms
    by (cases "resp_text response")
       (simp_all add: summarizePage_def tryCatch_def tryBlock_def fetch_def catchBlock_def)
  have notjson: "fst result = Inr None"
    if "apiKey st \<noteq> []" "outcome = Inr response" "resp_ok response" "resp_json response = Inl e"
    for response e
    using that assms by (simp add: summarizePage_def tryCatch_def tryBlock_def fetch_def catchBlock_def)
  have nochoice: "fst result = Inr None"
    if "apiKey st \<noteq> []" "outcome = Inr response" "resp_ok response" "resp_json response = Inr data"
      "getProp data (ascii ''choices'') = Inr choices"
      "choices = JUndefined \<or> choices = JNull \<or> choices = JArray []"
    for response data choices
  proof -
    let ?w1 = "w\<lparr>requests := requests w @ [requestOf st (promptOf ps page)]\<rparr>"
    from readChoices_no_choices [OF that(5,6), of ?w1]
    obtain v where "readChoices data ?w1 = (Inr None, v)" by (cases "readChoices data ?w1") auto
    with that(1-4) assms show ?thesis
      by (simp add: summarizePage_def tryCatch_def tryBlock_def fetch_def)
  qed
  have success: "apiKey st \<noteq> []
             \<and> (\<exists>response data choices choice message s.
                   outcome = Inr response \<and> resp_ok response \<and> resp_json response = Inr data
                   \<and> getProp data (ascii ''choices'') = Inr choices \<and> getIndex0 choices = Inr choice
                   \<and> getProp choice (ascii ''message'') = Inr message
                   \<and> getProp message (ascii ''content'') = Inr (JString s) \<and> d = trim s)"
    if "fst result = Inr (Some d)" for d
  proof -
    from that assms(1) have "fst (summarizePage srv page ps st w) = Inr (Some d)" by simp
    from summarizePage_Some [OF this] obtain response data where
      "apiKey st \<noteq> []" "outcome = Inr response" "resp_ok response" "resp_json response = Inr data"
      and rc: "fst (readChoices data w) = Inr (Some d)"
      using assms(2) by auto
    moreover from readChoices_Some [OF rc] obtain choices choice message s where
      "getProp data (ascii ''choices'') = Inr choices" "getIndex0 choices = Inr choice"
      "getProp choice (ascii ''message'') = Inr message"
      "getProp message (ascii ''content'') = Inr (JString s)" "d = trim s" by auto
    ultimately show ?thesis by blast
  qed
  have reported: "\<exists>t es. toasts (snd result) = toasts w @ [t] \<and> console (snd result) = console w @ es
                \<and> es \<noteq> [] \<and> (\<forall>e\<in>set es. fst e = LevelError)"
    if "fst result = Inr None"
    using summarizePage_cases [of srv page ps st w] that assms(1) by auto
  from total nokey rejected status notjson nochoice success reported show ?thesis
    by (intro conjI impI allI) (blast+)
qed


theorem summarizePage_absorbs_failures_witness:
  "(let W = exWorld 5 25 []; st = fst (getSettings W);
        result = summarizePage exServer (ascii ''User:'') [] st W
    in apiKey st = [] \<and> fst result = Inr None \<and> requests (snd result) = requests W
       \<and> (\<exists>t es. toasts (snd result) = toasts W @ [t] \<and> console (snd result) = console W @ es
             \<and> es \<noteq> [] \<and> (\<forall>e\<in>set es. fst e = LevelError)))
   \<and> (let W = exWorld 5 25 (ascii ''key''); st = fst (getSettings W);
          request = requestOf st (promptOf [] (ascii ''User:''))
      in apiKey st \<noteq> []
         \<and> exDownServer (length (requests W)) request = Inl NetworkError
         \<and> fst (summarizePage exDownServer (ascii ''User:'') [] st W) = Inr None
         \<and> \<not> resp_ok (projr (exErrorServer (length (requests W)) request))
         \<and> fst (summarizePage exErrorServer (ascii ''User:'') [] st W) = Inr None
         \<and> resp_json (projr (exGarbageServer (length (requests W)) request)) = Inl SyntaxError
         \<and> fst (summarizePage exGarbageServer (ascii ''User:'') [] st W) = Inr None
         \<and> resp_json (projr (exNoChoiceServer (length (requests W)) request))
              = Inr (JObject [(ascii ''choices'', JArray [])])
         \<and> fst (summarizePage exNoChoiceServer (ascii ''User:'') [] st W) = Inr None)"
proof -
  let ?page = "ascii ''User:''"
  let ?V = "exWorld 5 25 []"
  let ?sv = "fst (getSettings ?V)"
  let ?W = "exWorld 5 25 (ascii ''key'')"
  let ?st = "fst (getSettings ?W)"
  let ?request = "requestOf ?st (promptOf [] ?page)"
  have nokey: "apiKey ?sv = []" by (simp add: ex_settings)
  have key: "apiKey ?st \<noteq> []" by (simp add: ex_settings ascii_def)
  have down: "exDownServer (length (requests ?W)) ?request = Inl NetworkError"
    by (simp add: exDownServer_def)
  have err: "\<exists>response. exErrorServer (length (requests ?W)) ?request = Inr response \<and> \<not> resp_ok response"
    by (simp add: exErrorServer_def)
  have garbage: "\<exists>response e. exGarbageServer (length (requests ?W)) ?request = Inr response
                   \<and> resp_ok response \<and> resp_json response = Inl e"
    by (simp add: exGarbageServer_def)
  have nochoice: "\<exists>response data choices. exNoChoiceServer (length (requests ?W)) ?request = Inr response
                   \<and> resp_ok response \<and> resp_json response = Inr data
                   \<and> getProp data (ascii ''choices'') = Inr choices
                   \<and> (choices = JUndefined \<or> choices = JNull \<or> choices = JArray [])"
    by (simp add: exNoChoiceServer_def)
  from summarizePage_absorbs_failures [OF refl refl, of exServer ?page "[]" ?sv ?V] nokey
  have 1: "fst (summarizePage exServer ?page [] ?sv ?V) = Inr None
       \<and> requests (snd (summarizePage exServer ?page [] ?sv ?V)) = requests ?V
       \<and> (\<exists>t es. toasts (snd (summarizePage exServer ?page [] ?sv ?V)) = toasts ?V @ [t]
             \<and> console (snd (summarizePage exServer ?page [] ?sv ?V)) = console ?V @ es
             \<and> es \<noteq> [] \<and> (\<forall>e\<in>set es. fst e = LevelError))"
    by blast
  from summarizePage_absorbs_failures [OF refl refl, of exDownServer ?page "[]" ?st ?W] key down
  have 2: "fst (summarizePage exDownServer ?page [] ?st ?W) = Inr None" by blast
  from summarizePage_absorbs_failures [OF refl refl, of exErrorServer ?page "[]" ?st ?W] key err
  have 3: "fst (summarizePage exErrorServer ?page [] ?st ?W) = Inr None" by blast
  from summarizePage_absorbs_failures [OF refl refl, of exGarbageServer ?page "[]" ?st ?W] key garbage
  have 4: "fst (summarizePage exGarbageServer ?page [] ?st ?W) = Inr None" by blast
  from summarizePage_absorbs_failures [OF refl refl, of exNoChoiceServer ?page "[]" ?st ?W] key nochoice
  have 5: "fst (summarizePage exNoChoiceServer ?page [] ?st ?W) = Inr None" by blast
  have 6: "\<not> resp_ok (projr (exErrorServer (length (requests ?W)) ?request))"
    "resp_json (projr (exGarbageServer (length (requests ?W)) ?request)) = Inl SyntaxError"
    "resp_json (projr (exNoChoiceServer (length (requests ?W)) ?request))
              = Inr (JObject [(ascii ''choices'', JArray [])])"
    by (simp_all add: exErrorServer_def exGarbageServer_def exNoChoiceServer_def)
  from nokey key down 1 2 3 4 5 6 show ?thesis unfolding Let_def by blast
qed

section \<open>Early returns\<close>

text \<open>
  C10: on a chat of fewer than 3 messages the interceptor returns at once: the chat array is
  what it was, no \<open>fetch\<close> call is made, \<open>dynamicMemory\<close> is not written and no error
  is shown; only \<open>getSettings\<close> has run.  This holds whether or not the extension is enabled
  and whether or not the chat would have a non-empty history.
\<close>

theorem short_chat_untouched:
  assumes "length chat < 3"
  shows "dynamicMemoryInterceptor srv now chat w = Some (Inr (), chat, snd (getSettings w))
       \<and> requests (snd (getSettings w)) = requests w
       \<and> dynamicMemory (snd (getSettings w)) = dynamicMemory w
       \<and> toasts (snd (getSettings w)) = toasts w"
  using assms by (simp add: dynamicMemoryInterceptor_def case_prod_beta)

theorem short_chat_untouched_witness:
  "length [exHi, exHello] < 3
   \<and> enabled (fst (getSettings (exWorld 5 5 (ascii ''key''))))
   \<and> historyOf (fst (getSettings (exWorld 5 5 (ascii ''key'')))) [exHi, exHello] = [exHi, exHello]
   \<and> dynamicMemoryInterceptor exServer 7 [exHi, exHello] (exWorld 5 5 (ascii ''key''))
       = Some (Inr (), [exHi, exHello], snd (getSettings (exWorld 5 5 (ascii ''key''))))
   \<and> requests (snd (getSettings (exWorld 5 5 (ascii ''key'')))) = []
   \<and> dynamicMemory (snd (getSettings (exWorld 5 5 (ascii ''key'')))) = [ascii ''old'']"
proof -
  have "length [exHi, exHello] < 3" by simp
  from short_chat_untouched [OF this, of exServer 7 "exWorld 5 5 (ascii ''key'')"]
  show ?thesis by (simp add: example_defs splitter_defs)
qed

text \<open>
  C8: on a chat made only of messages that are not user-authored and are system-flagged or
  named \<open>System\<close>, the interceptor leaves the chat array as it was and makes no
  \<open>fetch\<close> call (nor writes \<open>dynamicMemory\<close>).
\<close>

theorem all_system_chat_untouched:
  assumes "\<forall>m\<in>set chat. \<not> is_user m \<and> (is_system m \<or> name m = ascii ''System'')"
  shows "\<exists>w'. dynamicMemoryInterceptor srv now chat w = Some (Inr (), chat, w')
           \<and> requests w' = requests w \<and> dynamicMemory w' = dynamicMemory w \<and> toasts w' = toasts w"
proof (cases "\<not> enabled (fst (getSettings w)) \<or> length chat < 3")
  case True
  then show ?thesis by (auto simp: dynamicMemoryInterceptor_def case_prod_beta)
next
  case False
  from assms have "\<forall>j. 0 \<le> j \<and> j < length chat \<longrightarrow> \<not> fromUserOrCharacter (chat ! j)"
    by (auto simp: fromUserOrCharacter_def)
  moreover from False have "0 < length chat" by (cases chat) auto
  ultimately have "findChatStart chat 0 = AllSystem" by (intro findChatStart_all_system)
  with False show ?thesis by (simp add: dynamicMemoryInterceptor_def case_prod_beta Let_def)
qed

theorem all_system_chat_untouched_witness:
  "\<not> is_user exRules \<and> is_system exRules \<and> name exRules = ascii ''System''
   \<and> enabled (fst (getSettings (exWorld 5 5 (ascii ''key''))))
   \<and> (\<exists>w'. dynamicMemoryInterceptor exServer 7 [exRules, exRules, exRules] (exWorld 5 5 (ascii ''key''))
             = Some (Inr (), [exRules, exRules, exRules], w')
         \<and> requests w' = requests (exWorld 5 5 (ascii ''key''))
         \<and> dynamicMemory w' = dynamicMemory (exWorld 5 5 (ascii ''key''))
         \<and> toasts w' = toasts (exWorld 5 5 (ascii ''key'')))"
proof -
  have h: "\<forall>m\<in>set [exRules, exRules, exRules]. \<not> is_user m \<and> (is_system m \<or> name m = ascii ''System'')"
    by (simp add: exRules_def)
  have "enabled (fst (getSettings (exWorld 5 5 (ascii ''key''))))"
    by (simp add: exWorld_def getSettings_def)
  moreover have "\<not> is_user exRules \<and> is_system exRules \<and> name exRules = ascii ''System''"
    by (simp add: exRules_def)
  ultimately show ?thesis
    using all_system_chat_untouched [OF h, of exServer 7 "exWorld 5 5 (ascii ''key'')"] by blast
qed

section \<open>Summaries and reconstruction\<close>

lemma nonEmptyDigests_blank:
  "\<forall>r\<in>set rs. r = Inr None \<or> r = Inr (Some []) \<Longrightarrow> nonEmptyDigests rs = []"
  by (induction rs rule: nonEmptyDigests.induct) auto

lemma trim_blank: "\<forall>c\<in>set s. isWhiteSpace c \<Longrightarrow> trim s = []"
  by (auto simp: trim_def dest: set_dropWhileD)

lemma summarizePage_success:
  assumes "apiKey st \<noteq> []"
    and "srv (length (requests w)) (requestOf st (promptOf ps page)) = Inr response"
    and "resp_ok response"
    and "resp_json response
           = Inr (JObject [(ascii ''choices'',
                            JArray (JObject [(ascii ''message'',
                                              JObject [(ascii ''content'', JString content)])]
                                    # others))])"
  shows "summarizePage srv page ps st w
           = (Inr (Some (trim content)), w\<lparr>requests := requests w @ [requestOf st (promptOf ps page)]\<rparr>)"
  using assms
  by (simp add: summarizePage_def tryCatch_def tryBlock_def fetch_def readChoices_def)

text \<open>
  C6: in a run that reaches the page loop, if every \<open>summarizePage\<close> call returns
  \<open>null\<close> (the call failed) or the empty string (the answer was empty or only white space,
  see \<open>trim_blank\<close>), then the collected digest list, stored in \<open>dynamicMemory\<close>, is
  empty and the chat array is left exactly as it was.
\<close>

theorem blank_or_failed_summaries_leave_chat:
  assumes "st = fst (getSettings w)"
    and "enabled st" and "3 \<le> length chat" and "findChatStart chat 0 \<noteq> AllSystem"
    and "historyOf st chat \<noteq> []"
    and "paginate (historyOf st chat) (pageSize st) = Some pages"
    and "\<forall>r\<in>set (pageSummaries srv pages (presentSituationText (presentOf st chat)) st w).
           r = Inr None \<or> r = Inr (Some [])"
  shows "\<exists>w'. dynamicMemoryInterceptor srv now chat w = Some (Inr (), chat, w')
           \<and> dynamicMemory w' = []"
proof -
  from assms(7)
  have "nonEmptyDigests (pageSummaries srv pages (presentSituationText (presentOf st chat)) st w) = []"
    by (rule nonEmptyDigests_blank)
  with dynamicMemoryInterceptor_summarizes [OF assms(1-6) refl, of srv now]
  show ?thesis by simp
qed

theorem blank_or_failed_summaries_leave_chat_witness:
  "(let W = exWorld 5 25 (ascii ''key''); st = fst (getSettings W);
        pages = [ascii ''User:'', ascii '' hi'' @ newline]
    in enabled st \<and> 3 \<le> length exChat \<and> findChatStart exChat 0 \<noteq> AllSystem
       \<and> historyOf st exChat \<noteq> []
       \<and> paginate (historyOf st exChat) (pageSize st) = Some pages
       \<and> (\<forall>r\<in>set (pageSummaries exBlankServer pages (presentSituationText (presentOf st exChat)) st W).
             r = Inr None \<or> r = Inr (Some []))
       \<and> (\<exists>w'. dynamicMemoryInterceptor exBlankServer 7 exChat W = Some (Inr (), exChat, w')
             \<and> dynamicMemory w' = []))"
proof -
  let ?W = "exWorld 5 25 (ascii ''key'')"
  let ?st = "fst (getSettings ?W)"
  let ?pages = "[ascii ''User:'', ascii '' hi'' @ newline]"
  have h2: "enabled ?st" by (simp add: ex_settings)
  have h3: "3 \<le> length exChat" by (simp add: exChat_def)
  have h4: "findChatStart exChat 0 \<noteq> AllSystem" by (simp add: ex_found)
  have h5: "historyOf ?st exChat \<noteq> []" by (simp add: ex_history_25)
  have h6: "paginate (historyOf ?st exChat) (pageSize ?st) = Some ?pages"
    unfolding ex_history_25 by (simp add: ex_settings ex_pages)
  have h7: "\<forall>r\<in>set (pageSummaries exBlankServer ?pages (presentSituationText (presentOf ?st exChat)) ?st ?W).
              r = Inr None \<or> r = Inr (Some [])"
    unfolding ex_blank_summaries by simp
  from blank_or_failed_summaries_leave_chat [OF refl h2 h3 h4 h5 h6 h7, of 7] h2 h3 h4 h5 h6 h7
  show ?thesis unfolding Let_def by blast
qed


text \<open>
  C9: every run that reaches the page loop overwrites \<open>dynamicMemory\<close> with the non-empty
  digests of that run in page order, whatever it held before; when no page gives a digest it
  becomes empty.
\<close>

theorem snapshot_overwritten_each_run:
  assumes "st = fst (getSettings w)"
    and "enabled st" and "3 \<le> length chat" and "findChatStart chat 0 \<noteq> AllSystem"
    and "historyOf st chat \<noteq> []"
    and "paginate (historyOf st chat) (pageSize st) = Some pages"
  shows "\<exists>chat' w'. dynamicMemoryInterceptor srv now chat w = Some (Inr (), chat', w')
           \<and> dynamicMemory w'
               = nonEmptyDigests (pageSummaries srv pages (presentSituationText (presentOf st chat)) st w)"
  using dynamicMemoryInterceptor_summarizes [OF assms refl, of srv now] by blast

theorem snapshot_overwritten_each_run_witness:
  "(let W = exWorld 5 25 (ascii ''key''); st = fst (getSettings W);
        pages = [ascii ''User:'', ascii '' hi'' @ newline]
    in enabled st \<and> 3 \<le> length exChat \<and> findChatStart exChat 0 \<noteq> AllSystem
       \<and> historyOf st exChat \<noteq> []
       \<and> paginate (historyOf st exChat) (pageSize st) = Some pages
       \<and> dynamicMemory W = [ascii ''old'']
       \<and> (\<exists>chat' w'. dynamicMemoryInterceptor exDownServer 7 exChat W = Some (Inr (), chat', w')
             \<and> dynamicMemory w' = []))"
proof -
  let ?W = "exWorld 5 25 (ascii ''key'')"
  let ?st = "fst (getSettings ?W)"
  let ?pages = "[ascii ''User:'', ascii '' hi'' @ newline]"
  have h2: "enabled ?st" by (simp add: ex_settings)
  have h3: "3 \<le> length exChat" by (simp add: exChat_def)
  have h4: "findChatStart exChat 0 \<noteq> AllSystem" by (simp add: ex_found)
  have h5: "historyOf ?st exChat \<noteq> []" by (simp add: ex_history_25)
  have h6: "paginate (historyOf ?st exChat) (pageSize ?st) = Some ?pages"
    unfolding ex_history_25 by (simp add: ex_settings ex_pages)
  have old: "dynamicMemory ?W = [ascii ''old'']" by (simp add: exWorld_def)
  from snapshot_overwritten_each_run [OF refl h2 h3 h4 h5 h6, of exDownServer 7]
  have "\<exists>chat' w'. dynamicMemoryInterceptor exDownServer 7 exChat ?W = Some (Inr (), chat', w')
          \<and> dynamicMemory w' = []"
    unfolding ex_down_summaries by simp
  with h2 h3 h4 h5 h6 old show ?thesis unfolding Let_def by blast
qed

text \<open>
  C5: when the run produces at least one non-empty digest, the chat array becomes the
  initial system messages, then one message that is not user-authored, is system-flagged and
  named \<open>System\<close>, carries the reading of the clock as its date and has as body the fixed
  label, a newline and the digests joined by newlines in page order, then the present
  messages.
\<close>

theorem one_summary_message_inserted:
  assumes "st = fst (getSettings w)"
    and "enabled st" and "3 \<le> length chat" and "findChatStart chat 0 \<noteq> AllSystem"
    and "historyOf st chat \<noteq> []"
    and "paginate (historyOf st chat) (pageSize st) = Some pages"
    and "digests = nonEmptyDigests (pageSummaries srv pages (presentSituationText (presentOf st chat)) st w)"
    and "digests \<noteq> []"
  shows "\<exists>w'. dynamicMemoryInterceptor srv now chat w
           = Some (Inr (),
                   initialSystemMessages chat
                   @ [\<lparr> is_user = False, name = ascii ''System'', is_system = True, send_date = now,
                        mes = ascii ''[The following is a summarized history of past events, used for context]''
                              @ newline @ join newline digests \<rparr>]
                   @ presentOf st chat,
                   w')"
  using dynamicMemoryInterceptor_summarizes [OF assms(1-7), of now] assms(8)
  by (auto simp: memoryMessage_def)

theorem one_summary_message_inserted_witness:
  "(let W = exWorld 5 25 (ascii ''key''); st = fst (getSettings W);
        pages = [ascii ''User:'', ascii '' hi'' @ newline];
        digests = [ascii ''likes tea'']
    in enabled st \<and> 3 \<le> length exChat \<and> findChatStart exChat 0 \<noteq> AllSystem
       \<and> historyOf st exChat \<noteq> []
       \<and> paginate (historyOf st exChat) (pageSize st) = Some pages
       \<and> digests = nonEmptyDigests (pageSummaries exServer pages (presentSituationText (presentOf st exChat)) st W)
       \<and> digests \<noteq> []
       \<and> (\<exists>w'. dynamicMemoryInterceptor exServer 7 exChat W
             = Some (Inr (),
                     [exRules,
                      \<lparr> is_user = False, name = ascii ''System'', is_system = True, send_date = 7,
                        mes = ascii ''[The following is a summarized history of past events, used for context]''
                              @ newline @ ascii ''likes tea'' \<rparr>,
                      exHello, exGoOn],
                     w')))"
proof -
  let ?W = "exWorld 5 25 (ascii ''key'')"
  let ?st = "fst (getSettings ?W)"
  let ?pages = "[ascii ''User:'', ascii '' hi'' @ newline]"
  let ?digests = "[ascii ''likes tea'']"
  have h2: "enabled ?st" by (simp add: ex_settings)
  have h3: "3 \<le> length exChat" by (simp add: exChat_def)
  have h4: "findChatStart exChat 0 \<noteq> AllSystem" by (simp add: ex_found)
  have h5: "historyOf ?st exChat \<noteq> []" by (simp add: ex_history_25)
  have h6: "paginate (historyOf ?st exChat) (pageSize ?st) = Some ?pages"
    unfolding ex_history_25 by (simp add: ex_settings ex_pages)
  have h7: "?digests = nonEmptyDigests (pageSummaries exServer ?pages (presentSituationText (presentOf ?st exChat)) ?st ?W)"
    unfolding ex_summaries by (simp add: ascii_def)
  have h8: "?digests \<noteq> []" by simp
  from one_summary_message_inserted [OF refl h2 h3 h4 h5 h6 h7 h8, of 7]
  have "\<exists>w'. dynamicMemoryInterceptor exServer 7 exChat ?W
             = Some (Inr (),
                     [exRules,
                      \<lparr> is_user = False, name = ascii ''System'', is_system = True, send_date = 7,
                        mes = ascii ''[The following is a summarized history of past events, used for context]''
                              @ newline @ ascii ''likes tea'' \<rparr>,
                      exHello, exGoOn],
                     w')"
    unfolding ex_initial ex_present_25 by simp
  with h2 h3 h4 h5 h6 h7 h8 show ?thesis unfolding Let_def by blast
qed

lemma memoryMessage_not_chat: "\<not> fromUserOrCharacter (memoryMessage now memory)"
  by (simp add: fromUserOrCharacter_def memoryMessage_def)

lemma reconstruction_changes_chat:
  assumes "3 \<le> length chat" and "findChatStart chat 0 \<noteq> AllSystem"
  shows "initialSystemMessages chat @ [memoryMessage now memory] @ present \<noteq> chat"
proof
  assume eq: "initialSystemMessages chat @ [memoryMessage now memory] @ present = chat"
  obtain k where k: "findChatStart chat 0 = Found k"
    using assms findChatStart_NoBreak [of chat 0] by (cases "findChatStart chat 0") auto
  with findChatStart_Found [of chat 0 k]
  have kk: "k < length chat" "fromUserOrCharacter (chat ! k)" by auto
  have len: "length (initialSystemMessages chat) = k"
    using k kk by (simp add: initialSystemMessages_def chatStartIndex_def)
  have "(initialSystemMessages chat @ [memoryMessage now memory] @ present) ! k = memoryMessage now memory"
    using len by (simp add: nth_append)
  with eq kk memoryMessage_not_chat show False by metis
qed

text \<open>
  C4: when a run changes the chat array, the digest list is non-empty and the new array has
  length \<open>len(preamble) + 1 + len(present)\<close>: it starts with the initial system messages,
  which are the first \<open>chatStartIndex\<close> messages of the old array, and after one further
  message continues with the present messages, which are the old array from the split point on.
\<close>

theorem mutation_keeps_preamble_and_present:
  assumes "dynamicMemoryInterceptor srv now chat w = Some (r, chat', w')"
    and "chat' \<noteq> chat" and "st = fst (getSettings w)"
  shows "dynamicMemory w' \<noteq> []
       \<and> length chat' = length (initialSystemMessages chat) + 1 + length (presentOf st chat)
       \<and> take (length (initialSystemMessages chat)) chat' = initialSystemMessages chat
       \<and> drop (length (initialSystemMessages chat) + 1) chat' = presentOf st chat
       \<and> initialSystemMessages chat = take (chatStartIndex chat) chat
       \<and> presentOf st chat
           = drop (chatStartIndex chat + splitIndex (workableChat chat) (presentSituationSize st)) chat"
proof -
  from dynamicMemoryInterceptor_cases [OF assms(1)] assms(2,3)
  have mem: "dynamicMemory w' \<noteq> []"
    and out: "chat' = initialSystemMessages chat @ [memoryMessage now (dynamicMemory w')] @ presentOf st chat"
    by auto
  have len: "length chat' = length (initialSystemMessages chat) + 1 + length (presentOf st chat)"
    by (simp add: out)
  have pre: "take (length (initialSystemMessages chat)) chat' = initialSystemMessages chat"
    by (simp add: out)
  have post: "drop (length (initialSystemMessages chat) + 1) chat' = presentOf st chat"
    by (simp add: out)
  have "presentOf st chat
          = drop (chatStartIndex chat + splitIndex (workableChat chat) (presentSituationSize st)) chat"
    by (simp add: presentChat_def workableChat_def add.commute)
  moreover have "initialSystemMessages chat = take (chatStartIndex chat) chat"
    by (simp add: initialSystemMessages_def)
  ultimately show ?thesis using mem len pre post by blast
qed


theorem mutation_keeps_preamble_and_present_witness:
  "\<exists>r chat' w'.
     dynamicMemoryInterceptor exServer 7 exChat (exWorld 5 25 (ascii ''key'')) = Some (r, chat', w')
     \<and> chat' \<noteq> exChat
     \<and> dynamicMemory w' \<noteq> []
     \<and> length chat' = length [exRules] + 1 + length [exHello, exGoOn]
     \<and> take (length [exRules]) chat' = [exRules]
     \<and> drop (length [exRules] + 1) chat' = [exHello, exGoOn]"
proof -
  let ?W = "exWorld 5 25 (ascii ''key'')"
  let ?st = "fst (getSettings ?W)"
  let ?pages = "[ascii ''User:'', ascii '' hi'' @ newline]"
  have h2: "enabled ?st" by (simp add: ex_settings)
  have h3: "3 \<le> length exChat" by (simp add: exChat_def)
  have h4: "findChatStart exChat 0 \<noteq> AllSystem" by (simp add: ex_found)
  have h5: "historyOf ?st exChat \<noteq> []" by (simp add: ex_history_25)
  have h6: "paginate (historyOf ?st exChat) (pageSize ?st) = Some ?pages"
    unfolding ex_history_25 by (simp add: ex_settings ex_pages)
  from dynamicMemoryInterceptor_summarizes [OF refl h2 h3 h4 h5 h6 refl, of exServer 7]
  obtain w' where run: "dynamicMemoryInterceptor exServer 7 exChat ?W
      = Some (Inr (), [exRules, memoryMessage 7 [ascii ''likes tea''], exHello, exGoOn], w')"
    unfolding ex_summaries ex_initial ex_present_25 by (auto simp: ascii_def)
  have neq: "[exRules, memoryMessage 7 [ascii ''likes tea''], exHello, exGoOn] \<noteq> exChat"
    by (simp add: exChat_def memoryMessage_def exHi_def)
  from mutation_keeps_preamble_and_present [OF run neq refl] run neq
  show ?thesis unfolding ex_initial ex_present_25 by blast
qed

end
